theory Spec2Isabelle
  imports Complex_Main "HOL-Library.List_Lexorder"
begin

section \<open>Errors\<close>

text \<open>
  Every exception the two source files (and the library calls they make) can raise is a
  constructor of one error type; a function that can raise returns \<open>error + 'a\<close>.
\<close>

datatype error =
    ShapeMismatch             \<comment> \<open>torch: operand shapes cannot be combined\<close>
  | CatEmptyList              \<comment> \<open>torch.cat: expected a non-empty list of Tensors\<close>
  | UnpackError               \<comment> \<open>Python: wrong number of values to unpack\<close>
  | TypeError_only_integer    \<comment> \<open>TypeError("Only integer array is allowed")\<close>
  | ValueError_only_2d        \<comment> \<open>ValueError("Only 2d array is allowed")\<close>
  | ValueError_2_columns      \<comment> \<open>ValueError("Array must have 2 columns")\<close>
  | SparseNegativeIndex       \<comment> \<open>scipy.sparse: raised on coordinates with a negative index\<close>
  | SparseEmptyIndex          \<comment> \<open>scipy.sparse: cannot infer dimensions from zero sized index arrays\<close>
  | SparseOverflow            \<comment> \<open>OverflowError: the inferred shape does not fit a 64-bit integer\<close>
  | SparseAllocation          \<comment> \<open>MemoryError (or numpy's "array is too big"): no room for the row pointers\<close>

section \<open>Tensors and linear layers (dssm\_no\_interactions.py)\<close>

text \<open>
  A 2-d tensor of shape \<open>(batch, width)\<close> is its width and the list of its rows; the
  width is kept beside the rows so that a tensor with zero rows still has a shape.
  Arithmetic is over the reals.
\<close>

record tensor =
  t_cols :: nat
  t_rows :: "real list list"

definition tensor_wf :: "tensor \<Rightarrow> bool" where
  "tensor_wf t = list_all (\<lambda>r. length r = t_cols t) (t_rows t)"

text \<open>
  \<open>nn.Linear(in_features, out_features, bias=False)\<close>: the weight has shape
  \<open>(out_features, in_features)\<close> and the layer maps a row \<open>x\<close> to \<open>x W\<^sup>T\<close>,
  with no bias added. An input whose last dimension is not \<open>in_features\<close> raises.
\<close>

record Linear =
  in_features :: nat
  out_features :: nat
  weight :: "real list list"

definition Linear_wf :: "Linear \<Rightarrow> bool" where
  "Linear_wf l = (length (weight l) = out_features l \<and>
                  list_all (\<lambda>w. length w = in_features l) (weight l))"

definition dot :: "real list \<Rightarrow> real list \<Rightarrow> real" where
  "dot w x = sum_list (map2 (*) w x)"

definition matvec :: "real list list \<Rightarrow> real list \<Rightarrow> real list" where
  "matvec W x = map (\<lambda>w. dot w x) W"

definition Linear_forward :: "Linear \<Rightarrow> tensor \<Rightarrow> error + tensor" where
  "Linear_forward l x =
     (if t_cols x \<noteq> in_features l then Inl ShapeMismatch
      else Inr \<lparr>t_cols = out_features l, t_rows = map (matvec (weight l)) (t_rows x)\<rparr>)"

text \<open>
  The activation is a callable applied to a tensor; it is modelled as a scalar function
  applied to every entry, which is what \<open>F.elu\<close> (the default) and the other
  nonlinearities are.
\<close>

definition elu :: "real \<Rightarrow> real" where
  "elu x = (if x > 0 then x else exp x - 1)"

definition apply_activation :: "(real \<Rightarrow> real) \<Rightarrow> tensor \<Rightarrow> tensor" where
  "apply_activation act t = t\<lparr>t_rows := map (map act) (t_rows t)\<rparr>"

definition vadd :: "real list \<Rightarrow> real list \<Rightarrow> real list" where
  "vadd x y = map2 (+) x y"

text \<open>Tensor addition of two tensors of one shape (broadcasting is not modelled: it raises).\<close>

definition tensor_add :: "tensor \<Rightarrow> tensor \<Rightarrow> error + tensor" where
  "tensor_add a b =
     (if t_cols a \<noteq> t_cols b \<or> length (t_rows a) \<noteq> length (t_rows b) then Inl ShapeMismatch
      else Inr \<lparr>t_cols = t_cols a, t_rows = map2 vadd (t_rows a) (t_rows b)\<rparr>)"

definition bind_err :: "error + 'a \<Rightarrow> ('a \<Rightarrow> error + 'b) \<Rightarrow> error + 'b" where
  "bind_err m f = (case m of Inl e \<Rightarrow> Inl e | Inr v \<Rightarrow> f v)"

section \<open>The two towers\<close>

record ItemNet =
  embedding_layer :: Linear
  dense_layer :: Linear
  item_output_layer :: Linear
  item_activation :: "real \<Rightarrow> real"

record UserNet =
  embedding_features_layer :: Linear
  features_dense_layer :: Linear
  user_output_layer :: Linear
  user_activation :: "real \<Rightarrow> real"

text \<open>What \<open>__init__(n_factors, dim_input, activation)\<close> fixes: the shapes of the three
  weights. Their entries are arbitrary (they are initialised at random and then trained).\<close>

definition Linear_shape :: "nat \<Rightarrow> nat \<Rightarrow> Linear \<Rightarrow> bool" where
  "Linear_shape i out l = (in_features l = i \<and> out_features l = out \<and> Linear_wf l)"

definition ItemNet_init :: "nat \<Rightarrow> nat \<Rightarrow> ItemNet \<Rightarrow> bool" where
  "ItemNet_init n_factors dim_input net =
     (Linear_shape dim_input n_factors (embedding_layer net) \<and>
      Linear_shape n_factors n_factors (dense_layer net) \<and>
      Linear_shape n_factors n_factors (item_output_layer net))"

definition UserNet_init :: "nat \<Rightarrow> nat \<Rightarrow> UserNet \<Rightarrow> bool" where
  "UserNet_init n_factors dim_input net =
     (Linear_shape dim_input n_factors (embedding_features_layer net) \<and>
      Linear_shape n_factors n_factors (features_dense_layer net) \<and>
      Linear_shape n_factors n_factors (user_output_layer net))"

definition ItemNet_forward :: "ItemNet \<Rightarrow> tensor \<Rightarrow> error + tensor" where
  "ItemNet_forward self item_features =
     bind_err (Linear_forward (embedding_layer self) item_features) (\<lambda>e0.
     let emb = apply_activation (item_activation self) e0 in
     bind_err (Linear_forward (dense_layer self) emb) (\<lambda>f0.
     let features = apply_activation (item_activation self) f0 in
     bind_err (tensor_add emb features) (\<lambda>x.
     Linear_forward (item_output_layer self) x)))"

definition UserNet_forward :: "UserNet \<Rightarrow> tensor \<Rightarrow> error + tensor" where
  "UserNet_forward self user_features =
     bind_err (Linear_forward (embedding_features_layer self) user_features) (\<lambda>e0.
     let features_emb = apply_activation (user_activation self) e0 in
     bind_err (Linear_forward (features_dense_layer self) features_emb) (\<lambda>f0.
     let features_dense = apply_activation (user_activation self) f0 in
     bind_err (tensor_add features_emb features_dense) (\<lambda>features_x.
     Linear_forward (user_output_layer self) features_x)))"

text \<open>
  The tower as the specification words it, on one feature vector:
  \<open>base = act (W_emb x)\<close>, \<open>residual = act (W_dense base)\<close>,
  \<open>output = W_out (base + residual)\<close>.
\<close>

definition tower_spec ::
  "real list list \<Rightarrow> real list list \<Rightarrow> real list list \<Rightarrow> (real \<Rightarrow> real) \<Rightarrow> real list \<Rightarrow> real list" where
  "tower_spec W_emb W_dense W_out act x =
     (let base = map act (matvec W_emb x);
          residual = map act (matvec W_dense base)
      in matvec W_out (vadd base residual))"

section \<open>The bi-encoder model\<close>

text \<open>
  A scalar tensor holding a loss: a real number, or \<open>NaN\<close> (the mean of no values).
\<close>

datatype loss = Loss real | NaN

record DSSMNoInteractions =
  user_net :: UserNet
  item_net :: ItemNet
  lr :: real
  triplet_loss_margin :: real
  weight_decay :: real
  log_to_prog_bar :: bool
  training :: bool                              \<comment> \<open>the mode \<open>self.eval()\<close> switches off\<close>
  logged :: "(string \<times> loss \<times> bool) list"       \<comment> \<open>what \<open>self.log\<close> has recorded\<close>

definition DSSMNoInteractions_init ::
  "nat \<Rightarrow> nat \<Rightarrow> nat \<Rightarrow> nat \<Rightarrow> (real \<Rightarrow> real) \<Rightarrow> DSSMNoInteractions \<Rightarrow> bool" where
  "DSSMNoInteractions_init n_factors_user n_factors_item dim_input_user dim_input_item activation self =
     (UserNet_init n_factors_user dim_input_user (user_net self) \<and>
      user_activation (user_net self) = activation \<and>
      ItemNet_init n_factors_item dim_input_item (item_net self) \<and>
      item_activation (item_net self) = activation)"

text \<open>The parameters of the source, in the source's order: positive items, negative items, users.\<close>

definition forward ::
  "DSSMNoInteractions \<Rightarrow> tensor \<Rightarrow> tensor \<Rightarrow> tensor \<Rightarrow> error + (tensor \<times> tensor \<times> tensor)" where
  "forward self item_features_pos item_features_neg user_features =
     bind_err (UserNet_forward (user_net self) user_features) (\<lambda>anchor.
     bind_err (ItemNet_forward (item_net self) item_features_pos) (\<lambda>pos.
     bind_err (ItemNet_forward (item_net self) item_features_neg) (\<lambda>neg.
     Inr (anchor, pos, neg))))"

text \<open>
  \<open>F.triplet_margin_loss(anchor, positive, negative, margin)\<close> with the library's
  defaults \<open>p = 2\<close>, \<open>eps = 1e-6\<close>, \<open>swap = False\<close>, \<open>reduction = 'mean'\<close>: the
  distance is the library's \<open>pairwise_distance\<close>, the 2-norm of \<open>x1 - x2 + eps\<close>.
\<close>

definition eps :: real where
  "eps = 1 / 1000000"

definition pairwise_distance :: "real \<Rightarrow> real list \<Rightarrow> real list \<Rightarrow> real" where
  "pairwise_distance e x1 x2 = sqrt (sum_list (map2 (\<lambda>a b. (a - b + e)\<^sup>2) x1 x2))"

definition same_shape :: "tensor \<Rightarrow> tensor \<Rightarrow> bool" where
  "same_shape a b = (t_cols a = t_cols b \<and> length (t_rows a) = length (t_rows b))"

definition mean_reduction :: "real list \<Rightarrow> loss" where
  "mean_reduction xs = (if xs = [] then NaN else Loss (sum_list xs / real (length xs)))"

definition triplet_margin_loss :: "tensor \<Rightarrow> tensor \<Rightarrow> tensor \<Rightarrow> real \<Rightarrow> error + loss" where
  "triplet_margin_loss anchor positive negative margin =
     (if same_shape anchor positive \<and> same_shape anchor negative then
        let dist_pos = map2 (pairwise_distance eps) (t_rows anchor) (t_rows positive);
            dist_neg = map2 (pairwise_distance eps) (t_rows anchor) (t_rows negative);
            output = map2 (\<lambda>dp dn. max (margin + dp - dn) 0) dist_pos dist_neg
        in Inr (mean_reduction output)
      else Inl ShapeMismatch)"

definition training_step ::
  "DSSMNoInteractions \<Rightarrow> tensor list \<Rightarrow> nat \<Rightarrow> error + (DSSMNoInteractions \<times> loss)" where
  "training_step self batch batch_idx =
     (case batch of
        [user_features, pos, neg] \<Rightarrow>
          bind_err (forward self pos neg user_features) (\<lambda>(anchor, positive, negative).
          bind_err (triplet_margin_loss anchor positive negative (triplet_loss_margin self)) (\<lambda>loss.
          Inr (self\<lparr>logged := logged self @ [(''loss'', loss, log_to_prog_bar self)]\<rparr>, loss)))
      | _ \<Rightarrow> Inl UnpackError)"

definition validation_step ::
  "DSSMNoInteractions \<Rightarrow> tensor list \<Rightarrow> nat \<Rightarrow> error + (DSSMNoInteractions \<times> loss)" where
  "validation_step self batch batch_idx =
     (case batch of
        [user_features, pos, neg] \<Rightarrow>
          bind_err (forward self pos neg user_features) (\<lambda>(anchor, positive, negative).
          bind_err (triplet_margin_loss anchor positive negative (triplet_loss_margin self)) (\<lambda>val_loss.
          Inr (self\<lparr>logged := logged self @ [(''val_loss'', val_loss, log_to_prog_bar self)]\<rparr>, val_loss)))
      | _ \<Rightarrow> Inl UnpackError)"

text \<open>The loop over the dataloader: each batch goes through the tower and is appended.\<close>

fun inference_loop ::
  "(tensor \<Rightarrow> error + tensor) \<Rightarrow> tensor list \<Rightarrow> tensor list \<Rightarrow> error + tensor list" where
  "inference_loop net [] batches = Inr batches"
| "inference_loop net (batch # rest) batches =
     (case net batch of
        Inl e \<Rightarrow> Inl e
      | Inr v_batch \<Rightarrow> inference_loop net rest (batches @ [v_batch]))"

text \<open>\<open>torch.cat(tensors, dim=0)\<close>: raises on an empty list and on differing widths.\<close>

definition torch_cat :: "tensor list \<Rightarrow> error + tensor" where
  "torch_cat ts =
     (case ts of
        [] \<Rightarrow> Inl CatEmptyList
      | t # rest \<Rightarrow>
          if list_all (\<lambda>u. t_cols u = t_cols t) rest
          then Inr \<lparr>t_cols = t_cols t, t_rows = concat (map t_rows ts)\<rparr>
          else Inl ShapeMismatch)"

definition inference_items ::
  "DSSMNoInteractions \<Rightarrow> tensor list \<Rightarrow> error + (DSSMNoInteractions \<times> tensor)" where
  "inference_items self dataloader =
     (let self1 = self\<lparr>training := False\<rparr> in
      bind_err (inference_loop (ItemNet_forward (item_net self1)) dataloader []) (\<lambda>batches.
      bind_err (torch_cat batches) (\<lambda>vectors.
      Inr (self1, vectors))))"

definition inference_users ::
  "DSSMNoInteractions \<Rightarrow> tensor list \<Rightarrow> error + (DSSMNoInteractions \<times> tensor)" where
  "inference_users self dataloader =
     (let self1 = self\<lparr>training := False\<rparr> in
      bind_err (inference_loop (UserNet_forward (user_net self1)) dataloader []) (\<lambda>batches.
      bind_err (torch_cat batches) (\<lambda>vectors.
      Inr (self1, vectors))))"

section \<open>Arrays (array\_set\_ops.py)\<close>

text \<open>
  A numpy array is its dtype, its shape and its entries in row-major order. The entries
  of an integer array are the integers it holds; for any other dtype the functions below
  raise before they read an entry.
\<close>

datatype dtype =
    Int8 | Int16 | Int32 | Int64
  | UInt8 | UInt16 | UInt32 | UInt64
  | Bool8 | Float32 | Float64 | Object

fun is_integer_dtype :: "dtype \<Rightarrow> bool" where
  "is_integer_dtype Bool8 = False"
| "is_integer_dtype Float32 = False"
| "is_integer_dtype Float64 = False"
| "is_integer_dtype Object = False"
| "is_integer_dtype _ = True"

fun is_signed :: "dtype \<Rightarrow> bool" where
  "is_signed Int8 = True"
| "is_signed Int16 = True"
| "is_signed Int32 = True"
| "is_signed Int64 = True"
| "is_signed _ = False"

fun itemsize :: "dtype \<Rightarrow> nat" where
  "itemsize Int8 = 1"
| "itemsize UInt8 = 1"
| "itemsize Bool8 = 1"
| "itemsize Int16 = 2"
| "itemsize UInt16 = 2"
| "itemsize Int32 = 4"
| "itemsize UInt32 = 4"
| "itemsize Float32 = 4"
| "itemsize _ = 8"

record ndarray =
  nd_dtype :: dtype
  nd_shape :: "nat list"
  nd_data :: "int list"

definition in_range :: "dtype \<Rightarrow> int \<Rightarrow> bool" where
  "in_range dt v =
     (if is_signed dt then - (2 ^ (8 * itemsize dt - 1)) \<le> v \<and> v < 2 ^ (8 * itemsize dt - 1)
      else 0 \<le> v \<and> v < 2 ^ (8 * itemsize dt))"

definition ndarray_wf :: "ndarray \<Rightarrow> bool" where
  "ndarray_wf arr = (length (nd_data arr) = prod_list (nd_shape arr) \<and>
                     list_all (in_range (nd_dtype arr)) (nd_data arr))"

text \<open>Row \<open>i\<close> of a 2-d array of shape \<open>(n, m)\<close>: entries \<open>i * m\<close> to \<open>i * m + m - 1\<close>.\<close>

definition nd_rows :: "ndarray \<Rightarrow> int list list" where
  "nd_rows arr =
     (let n = nd_shape arr ! 0; m = nd_shape arr ! 1
      in map (\<lambda>i. take m (drop (i * m) (nd_data arr))) [0..<n])"

definition nd_column :: "nat \<Rightarrow> ndarray \<Rightarrow> int list" where
  "nd_column j arr = map (\<lambda>r. r ! j) (nd_rows arr)"

subsection \<open>The byte view\<close>

text \<open>
  An integer of \<open>k\<close> bytes in memory: two's complement, least significant byte first.
\<close>

fun to_bytes :: "nat \<Rightarrow> int \<Rightarrow> nat list" where
  "to_bytes 0 v = []"
| "to_bytes (Suc k) v = nat (v mod 256) # to_bytes k (v div 256)"

fun unsigned_of_bytes :: "nat list \<Rightarrow> int" where
  "unsigned_of_bytes [] = 0"
| "unsigned_of_bytes (b # bs) = int b + 256 * unsigned_of_bytes bs"

definition from_bytes :: "bool \<Rightarrow> nat list \<Rightarrow> int" where
  "from_bytes signed bs =
     (let u = unsigned_of_bytes bs
      in if signed \<and> 2 ^ (8 * length bs - 1) \<le> u then u - 2 ^ (8 * length bs) else u)"

text \<open>
  \<open>np.ascontiguousarray(arr).view(dtype)\<close> with \<open>dtype\<close> the void type of
  \<open>itemsize * m\<close> bytes: one blob per row. When \<open>m = 0\<close> the void type asked for
  has size 0; numpy reads a void type without a size as one of the size of the array's
  own items, so the view keeps the shape \<open>(n, 0)\<close> and has no element.
\<close>

definition view_void :: "ndarray \<Rightarrow> nat list list" where
  "view_void arr =
     (if nd_shape arr ! 1 = 0 then []
      else map (\<lambda>r. concat (map (to_bytes (itemsize (nd_dtype arr))) r)) (nd_rows arr))"

text \<open>
  \<open>unq.view(arr_dtype)\<close>: each blob read back as integers of \<open>itemsize\<close> bytes.
\<close>

definition view_ints :: "dtype \<Rightarrow> nat list \<Rightarrow> int list" where
  "view_ints dt blob =
     (let k = itemsize dt
      in map (\<lambda>j. from_bytes (is_signed dt) (take k (drop (j * k) blob))) [0..<length blob div k])"

text \<open>
  \<open>np.unique(a, return_inverse=True)\<close> on a flattened array: the sorted distinct
  elements, and for each element of \<open>a\<close> its position among them. Blobs compare
  bytewise, which is the lexicographic order on byte lists.
\<close>

fun index_of :: "'a \<Rightarrow> 'a list \<Rightarrow> nat" where
  "index_of x [] = 0"
| "index_of x (y # ys) = (if x = y then 0 else Suc (index_of x ys))"

definition np_unique_inverse :: "'a::linorder list \<Rightarrow> 'a list \<times> nat list" where
  "np_unique_inverse a = (let u = sort (remdups a) in (u, map (\<lambda>x. index_of x u) a))"

definition fast_2d_int_unique :: "ndarray \<Rightarrow> error + (ndarray \<times> nat list)" where
  "fast_2d_int_unique arr =
     (if \<not> is_integer_dtype (nd_dtype arr) then Inl TypeError_only_integer
      else if length (nd_shape arr) \<noteq> 2 then Inl ValueError_only_2d
      else
        let arr_dtype = nd_dtype arr; arr_shape = nd_shape arr;
            consolidated = view_void arr;
            (unq_consolidated, inv_ids) = np_unique_inverse consolidated;
            unq_arr = \<lparr>nd_dtype = arr_dtype,
                       nd_shape = [length unq_consolidated, arr_shape ! 1],
                       nd_data = concat (map (view_ints arr_dtype) unq_consolidated)\<rparr>
        in Inr (unq_arr, inv_ids))"

subsection \<open>Sparse matrices\<close>

text \<open>
  \<open>sparse.csr_matrix((data, (row, col)))\<close> with boolean data. The coordinate matrix is
  built first, then converted to CSR:
  \<^item> its shape is inferred as \<open>(M, N) = (max row + 1, max col + 1)\<close>;
  \<^item> coordinates with a negative index are refused. The exception is a \<open>ValueError\<close> of
    the shape check or of the index check, or the \<open>OverflowError\<close> below when the shape is
    also too large, according to where the index is noticed: one error here;
  \<^item> the larger of \<open>M\<close> and \<open>N\<close> is converted to a signed 64-bit integer to choose the
    dtype of the index arrays, which raises \<open>OverflowError\<close> from \<open>2^63\<close> on;
  \<^item> the conversion to CSR allocates the row-pointer array \<open>indptr\<close> of \<open>M + 1\<close>
    entries, whatever the number of coordinates is. Whether that succeeds depends on the
    machine: \<open>alloc_limit\<close>, a parameter of the model, is the largest number of entries
    of an index array the machine allocates;
  \<^item> the conversion sums duplicates and sorts the column indices of each row. The data
    the function passes is all \<open>True\<close>, and for booleans \<open>True + True = True\<close>, so
    every stored entry is \<open>True\<close>. \<open>indptr\<close> holds the running count of stored entries
    before each row.
\<close>

record csr_matrix =
  csr_shape :: "nat \<times> nat"
  indptr :: "nat list"
  indices :: "nat list"
  csr_data :: "bool list"

record coo_matrix =
  coo_shape :: "nat \<times> nat"
  coo_row :: "nat list"
  coo_col :: "nat list"
  coo_data :: "bool list"

definition row_indices :: "nat list \<Rightarrow> nat list \<Rightarrow> nat \<Rightarrow> nat list" where
  "row_indices row col r = sort (remdups (map snd (filter (\<lambda>p. fst p = r) (zip row col))))"

definition coo_tocsr :: "nat \<Rightarrow> nat \<Rightarrow> nat list \<Rightarrow> nat list \<Rightarrow> csr_matrix" where
  "coo_tocsr M N rown coln =
     (let per_row = map (row_indices rown coln) [0..<M]
      in \<lparr>csr_shape = (M, N),
          indptr = map (\<lambda>r. sum_list (map length (take r per_row))) [0..<Suc M],
          indices = concat per_row,
          csr_data = replicate (length (concat per_row)) True\<rparr>)"

definition make_csr_matrix ::
  "nat \<Rightarrow> bool list \<Rightarrow> int list \<Rightarrow> int list \<Rightarrow> error + csr_matrix" where
  "make_csr_matrix alloc_limit dat row col =
     (if row = [] \<or> col = [] then Inl SparseEmptyIndex
      else if list_ex (\<lambda>v. v < 0) row \<or> list_ex (\<lambda>v. v < 0) col then Inl SparseNegativeIndex
      else
        let rown = map nat row; coln = map nat col;
            M = Max (set rown) + 1; N = Max (set coln) + 1
        in if 2 ^ 63 \<le> max M N then Inl SparseOverflow
           else if alloc_limit < M + 1 then Inl SparseAllocation
           else Inr (coo_tocsr M N rown coln))"

definition tocoo :: "csr_matrix \<Rightarrow> coo_matrix" where
  "tocoo csr =
     \<lparr>coo_shape = csr_shape csr,
      coo_row = concat (map (\<lambda>r. replicate (indptr csr ! Suc r - indptr csr ! r) r)
                          [0..<fst (csr_shape csr)]),
      coo_col = indices csr,
      coo_data = csr_data csr\<rparr>"

text \<open>
  The index arrays of scipy, which the result is built from, are 32-bit unless the shape
  needs more (the number of stored entries, which can also ask for 64 bits, is left out).
\<close>

definition index_dtype :: "nat \<times> nat \<Rightarrow> dtype" where
  "index_dtype sh = (if max (fst sh) (snd sh) < 2 ^ 31 then Int32 else Int64)"

definition fast_2d_2col_int_unique :: "nat \<Rightarrow> ndarray \<Rightarrow> error + ndarray" where
  "fast_2d_2col_int_unique alloc_limit arr =
     (if \<not> is_integer_dtype (nd_dtype arr) then Inl TypeError_only_integer
      else if length (nd_shape arr) \<noteq> 2 then Inl ValueError_only_2d
      else if nd_shape arr ! 1 \<noteq> 2 then Inl ValueError_2_columns
      else if nd_shape arr ! 0 = 0 then Inr arr
      else
        bind_err (make_csr_matrix alloc_limit (replicate (nd_shape arr ! 0) True)
                    (nd_column 0 arr) (nd_column 1 arr)) (\<lambda>csr.
        let coo = tocoo csr
        in Inr \<lparr>nd_dtype = index_dtype (coo_shape coo),
                nd_shape = [length (coo_row coo), 2],
                nd_data = concat (map2 (\<lambda>r c. [int r, int c]) (coo_row coo) (coo_col coo))\<rparr>))"

subsection \<open>Membership\<close>

text \<open>
  A 1-d array for the membership tests: whether its dtype is \<open>object\<close>, and its elements.
\<close>

record 'a array1d =
  is_object_dtype :: bool
  elems :: "'a list"

definition np_isin :: "'a list \<Rightarrow> 'a list \<Rightarrow> bool list" where
  "np_isin element test_elements = map (\<lambda>e. e \<in> set test_elements) element"

definition series_isin :: "'a list \<Rightarrow> 'a list \<Rightarrow> bool list" where
  "series_isin vals test_vals = map (\<lambda>e. List.member test_vals e) vals"

definition fast_isin :: "'a array1d \<Rightarrow> 'a array1d \<Rightarrow> bool list" where
  "fast_isin elements test_elements =
     (if is_object_dtype elements \<or> is_object_dtype test_elements
      then series_isin (elems elements) (elems test_elements)
      else np_isin (elems elements) (elems test_elements))"

text \<open>
  \<open>np.searchsorted(a, v, side)\<close>: a binary search for each key. With \<open>side = 'left'\<close>
  it moves right while \<open>a[mid] < key\<close>, with \<open>side = 'right'\<close> while \<open>a[mid] \<le> key\<close>.
\<close>

function binsearch_left :: "'a::linorder list \<Rightarrow> 'a \<Rightarrow> nat \<Rightarrow> nat \<Rightarrow> nat" where
  "binsearch_left a key lo hi =
     (if lo < hi then
        (let mid = lo + (hi - lo) div 2
         in if a ! mid < key then binsearch_left a key (mid + 1) hi
            else binsearch_left a key lo mid)
      else lo)"
  by pat_completeness auto
termination
  by (relation "measure (\<lambda>(a, key, lo, hi). hi - lo)") auto

function binsearch_right :: "'a::linorder list \<Rightarrow> 'a \<Rightarrow> nat \<Rightarrow> nat \<Rightarrow> nat" where
  "binsearch_right a key lo hi =
     (if lo < hi then
        (let mid = lo + (hi - lo) div 2
         in if a ! mid \<le> key then binsearch_right a key (mid + 1) hi
            else binsearch_right a key lo mid)
      else lo)"
  by pat_completeness auto
termination
  by (relation "measure (\<lambda>(a, key, lo, hi). hi - lo)") auto

declare binsearch_left.simps [simp del] binsearch_right.simps [simp del]

datatype side = Left | Right

definition searchsorted :: "'a::linorder list \<Rightarrow> 'a list \<Rightarrow> side \<Rightarrow> nat list" where
  "searchsorted a v sd =
     (case sd of
        Left \<Rightarrow> map (\<lambda>key. binsearch_left a key 0 (length a)) v
      | Right \<Rightarrow> map (\<lambda>key. binsearch_right a key 0 (length a)) v)"

definition fast_isin_for_sorted_test_elements ::
  "'a::linorder list \<Rightarrow> 'a list \<Rightarrow> bool \<Rightarrow> bool list" where
  "fast_isin_for_sorted_test_elements elements sorted_test_elements invert =
     (let ss_result_left = searchsorted sorted_test_elements elements Left;
          ss_result_right = searchsorted sorted_test_elements elements Right
      in if invert then map2 (\<lambda>r l. r \<noteq> l + 1) ss_result_right ss_result_left
         else map2 (\<lambda>r l. r = l + 1) ss_result_right ss_result_left)"

section \<open>Concrete values used to instantiate the theorems\<close>

text \<open>
  A model with one-dimensional features and embeddings: on a non-negative input \<open>x\<close>
  the user tower computes \<open>6 * x\<close> and the item tower \<open>2 * x\<close>.
\<close>

definition example_user_net :: UserNet where
  "example_user_net =
     \<lparr>embedding_features_layer = \<lparr>in_features = 1, out_features = 1, weight = [[3]]\<rparr>,
      features_dense_layer = \<lparr>in_features = 1, out_features = 1, weight = [[1]]\<rparr>,
      user_output_layer = \<lparr>in_features = 1, out_features = 1, weight = [[1]]\<rparr>,
      user_activation = elu\<rparr>"

definition example_item_net :: ItemNet where
  "example_item_net =
     \<lparr>embedding_layer = \<lparr>in_features = 1, out_features = 1, weight = [[1]]\<rparr>,
      dense_layer = \<lparr>in_features = 1, out_features = 1, weight = [[1]]\<rparr>,
      item_output_layer = \<lparr>in_features = 1, out_features = 1, weight = [[1]]\<rparr>,
      item_activation = elu\<rparr>"

definition example_model :: DSSMNoInteractions where
  "example_model =
     \<lparr>user_net = example_user_net, item_net = example_item_net, lr = 1 / 100,
      triplet_loss_margin = 2 / 5, weight_decay = 1 / 1000000, log_to_prog_bar = True,
      training = True, logged = []\<rparr>"

definition row_tensor :: "real list \<Rightarrow> tensor" where
  "row_tensor x = \<lparr>t_cols = length x, t_rows = [x]\<rparr>"

text \<open>
  The loss as the specification words it: per sample \<open>max 0 (margin + d anchor pos - d anchor neg)\<close>
  for a distance \<open>d\<close>, averaged over the batch; and the Euclidean distance.
\<close>

definition euclidean_distance :: "real list \<Rightarrow> real list \<Rightarrow> real" where
  "euclidean_distance x y = sqrt (sum_list (map2 (\<lambda>a b. (a - b)\<^sup>2) x y))"

definition triplet_loss_formula ::
  "(real list \<Rightarrow> real list \<Rightarrow> real) \<Rightarrow> real \<Rightarrow> real list list \<Rightarrow> real list list \<Rightarrow> real list list \<Rightarrow> real" where
  "triplet_loss_formula d margin anchor pos neg =
     sum_list (map (\<lambda>(a, p, n). max 0 (margin + d a p - d a n)) (zip anchor (zip pos neg)))
       / real (length anchor)"

text \<open>The order of the result rows: by column 0, then by column 1, strictly.\<close>

definition pair_less :: "int list \<Rightarrow> int list \<Rightarrow> bool" where
  "pair_less r s = (r ! 0 < s ! 0 \<or> (r ! 0 = s ! 0 \<and> r ! 1 < s ! 1))"

section \<open>The encoder towers\<close>

lemma map2_map_same: "map2 f (map h xs) (map g xs) = map (\<lambda>x. f (h x) (g x)) xs"
  by (induction xs) auto

lemma ItemNet_forward_rows:
  assumes "ItemNet_init n_factors dim_input net" and "t_cols x = dim_input"
  shows "ItemNet_forward net x =
     Inr \<lparr>t_cols = n_factors,
          t_rows = map (tower_spec (weight (embedding_layer net)) (weight (dense_layer net))
                         (weight (item_output_layer net)) (item_activation net)) (t_rows x)\<rparr>"
  using assms
  by (simp add: ItemNet_forward_def ItemNet_init_def Linear_shape_def Linear_forward_def
      bind_err_def apply_activation_def tensor_add_def tower_spec_def Let_def map2_map_same o_def)

lemma UserNet_forward_rows:
  assumes "UserNet_init n_factors dim_input net" and "t_cols x = dim_input"
  shows "UserNet_forward net x =
     Inr \<lparr>t_cols = n_factors,
          t_rows = map (tower_spec (weight (embedding_features_layer net)) (weight (features_dense_layer net))
                         (weight (user_output_layer net)) (user_activation net)) (t_rows x)\<rparr>"
  using assms
  by (simp add: UserNet_forward_def UserNet_init_def Linear_shape_def Linear_forward_def
      bind_err_def apply_activation_def tensor_add_def tower_spec_def Let_def map2_map_same o_def)

lemma example_user_net_init: "UserNet_init 1 1 example_user_net"
  by (simp add: UserNet_init_def example_user_net_def Linear_shape_def Linear_wf_def)

lemma example_item_net_init: "ItemNet_init 1 1 example_item_net"
  by (simp add: ItemNet_init_def example_item_net_def Linear_shape_def Linear_wf_def)

lemma example_model_init: "DSSMNoInteractions_init 1 1 1 1 elu example_model"
  using example_user_net_init example_item_net_init
  by (simp add: DSSMNoInteractions_init_def example_model_def)
    (simp add: example_user_net_def example_item_net_def)

lemma tower_spec_user_example: "0 \<le> x \<Longrightarrow> tower_spec [[3]] [[1]] [[1]] elu [x] = [6 * x]"
  by (simp add: tower_spec_def matvec_def dot_def vadd_def elu_def)

lemma tower_spec_item_example: "0 \<le> x \<Longrightarrow> tower_spec [[1]] [[1]] [[1]] elu [x] = [2 * x]"
  by (simp add: tower_spec_def matvec_def dot_def vadd_def elu_def)

text \<open>
  Claim C2. On every input of width \<open>dim_input\<close>, the item tower and the user tower
  (each with its own weights) return, row by row, \<open>W_out (base + residual)\<close> with
  \<open>base = act (W_emb x)\<close> and \<open>residual = act (W_dense base)\<close>: no bias is added and
  nothing is applied after the last projection. The result is a function of the input and
  the parameters alone.
\<close>

theorem tower_forward_spec:
  "(ItemNet_init n_factors dim_input inet \<and> t_cols x = dim_input \<longrightarrow>
      ItemNet_forward inet x =
        Inr \<lparr>t_cols = n_factors,
             t_rows = map (tower_spec (weight (embedding_layer inet)) (weight (dense_layer inet))
                            (weight (item_output_layer inet)) (item_activation inet)) (t_rows x)\<rparr>) \<and>
   (UserNet_init n_factors dim_input unet \<and> t_cols x = dim_input \<longrightarrow>
      UserNet_forward unet x =
        Inr \<lparr>t_cols = n_factors,
             t_rows = map (tower_spec (weight (embedding_features_layer unet))
                            (weight (features_dense_layer unet))
                            (weight (user_output_layer unet)) (user_activation unet)) (t_rows x)\<rparr>)"
  using ItemNet_forward_rows UserNet_forward_rows by blast

theorem tower_forward_spec_witness:
  "ItemNet_init 1 1 example_item_net \<and> UserNet_init 1 1 example_user_net \<and>
   t_cols (row_tensor [5]) = 1 \<and>
   ItemNet_forward example_item_net (row_tensor [5]) = Inr (row_tensor [10]) \<and>
   UserNet_forward example_user_net (row_tensor [5]) = Inr (row_tensor [30])"
  using tower_forward_spec [of 1 1 example_item_net "row_tensor [5]" example_user_net]
    example_item_net_init example_user_net_init
    tower_spec_user_example [of 5] tower_spec_item_example [of 5]
  by (simp add: row_tensor_def example_item_net_def example_user_net_def)

section \<open>The forward pass\<close>

lemma tower_spec_length: "length (tower_spec We Wd Wo act x) = length Wo"
  by (simp add: tower_spec_def matvec_def Let_def)

lemma UserNet_forward_shape:
  assumes "UserNet_init n_factors dim_input net" and "t_cols x = dim_input"
    and "UserNet_forward net x = Inr y"
  shows "t_cols y = n_factors \<and> length (t_rows y) = length (t_rows x) \<and> tensor_wf y"
  using assms UserNet_forward_rows [OF assms(1,2)]
  by (auto simp: tensor_wf_def list_all_iff tower_spec_length UserNet_init_def
      Linear_shape_def Linear_wf_def)

lemma ItemNet_forward_shape:
  assumes "ItemNet_init n_factors dim_input net" and "t_cols x = dim_input"
    and "ItemNet_forward net x = Inr y"
  shows "t_cols y = n_factors \<and> length (t_rows y) = length (t_rows x) \<and> tensor_wf y"
  using assms ItemNet_forward_rows [OF assms(1,2)]
  by (auto simp: tensor_wf_def list_all_iff tower_spec_length ItemNet_init_def
      Linear_shape_def Linear_wf_def)

lemma forward_ok:
  assumes "DSSMNoInteractions_init nu ni du di act self"
    and "t_cols user_features = du"
    and "t_cols item_features_pos = di"
    and "t_cols item_features_neg = di"
  shows "\<exists>anchor pos neg.
           forward self item_features_pos item_features_neg user_features = Inr (anchor, pos, neg) \<and>
           UserNet_forward (user_net self) user_features = Inr anchor \<and>
           ItemNet_forward (item_net self) item_features_pos = Inr pos \<and>
           ItemNet_forward (item_net self) item_features_neg = Inr neg \<and>
           t_cols anchor = nu \<and> length (t_rows anchor) = length (t_rows user_features) \<and>
           tensor_wf anchor \<and>
           t_cols pos = ni \<and> length (t_rows pos) = length (t_rows item_features_pos) \<and>
           tensor_wf pos \<and>
           t_cols neg = ni \<and> length (t_rows neg) = length (t_rows item_features_neg) \<and>
           tensor_wf neg"
proof -
  from assms(1) have u: "UserNet_init nu du (user_net self)"
    and i: "ItemNet_init ni di (item_net self)"
    by (simp_all add: DSSMNoInteractions_init_def)
  obtain a where a: "UserNet_forward (user_net self) user_features = Inr a"
    using UserNet_forward_rows [OF u assms(2)] by blast
  obtain p where p: "ItemNet_forward (item_net self) item_features_pos = Inr p"
    using ItemNet_forward_rows [OF i assms(3)] by blast
  obtain n where n: "ItemNet_forward (item_net self) item_features_neg = Inr n"
    using ItemNet_forward_rows [OF i assms(4)] by blast
  have f: "forward self item_features_pos item_features_neg user_features = Inr (a, p, n)"
    by (simp add: forward_def bind_err_def a p n)
  show ?thesis
    using f a p n UserNet_forward_shape [OF u assms(2) a]
      ItemNet_forward_shape [OF i assms(3) p] ItemNet_forward_shape [OF i assms(4) n]
    by blast
qed

text \<open>
  Claim C3, as amended. The forward pass takes its arguments in the order
  \<open>(item_features_pos, item_features_neg, user_features)\<close> and returns
  \<open>(anchor, pos, neg)\<close>, the user tower on \<open>user_features\<close> and the item tower on
  each of the two item batches. On inputs of the towers' widths it returns, each output
  has as many rows as its own input and the width of its tower, and each is the value of
  its own tower on its own input alone.
\<close>

theorem forward_towers:
  assumes "DSSMNoInteractions_init nu ni du di act self"
    and "t_cols user_features = du"
    and "t_cols item_features_pos = di"
    and "t_cols item_features_neg = di"
  shows "\<exists>anchor pos neg.
           forward self item_features_pos item_features_neg user_features = Inr (anchor, pos, neg) \<and>
           UserNet_forward (user_net self) user_features = Inr anchor \<and>
           ItemNet_forward (item_net self) item_features_pos = Inr pos \<and>
           ItemNet_forward (item_net self) item_features_neg = Inr neg \<and>
           t_cols anchor = nu \<and> length (t_rows anchor) = length (t_rows user_features) \<and>
           tensor_wf anchor \<and>
           t_cols pos = ni \<and> length (t_rows pos) = length (t_rows item_features_pos) \<and>
           tensor_wf pos \<and>
           t_cols neg = ni \<and> length (t_rows neg) = length (t_rows item_features_neg) \<and>
           tensor_wf neg"
  using assms by (rule forward_ok)

lemma example_user_forward: "0 \<le> x \<Longrightarrow>
    UserNet_forward example_user_net (row_tensor [x]) = Inr (row_tensor [6 * x])"
  using UserNet_forward_rows [OF example_user_net_init, of "row_tensor [x]"]
    tower_spec_user_example [of x]
  by (simp add: row_tensor_def example_user_net_def)

lemma example_item_forward: "0 \<le> x \<Longrightarrow>
    ItemNet_forward example_item_net (row_tensor [x]) = Inr (row_tensor [2 * x])"
  using ItemNet_forward_rows [OF example_item_net_init, of "row_tensor [x]"]
    tower_spec_item_example [of x]
  by (simp add: row_tensor_def example_item_net_def)

lemma example_forward: "0 \<le> p \<Longrightarrow> 0 \<le> n \<Longrightarrow> 0 \<le> u \<Longrightarrow>
   forward example_model (row_tensor [p]) (row_tensor [n]) (row_tensor [u])
     = Inr (row_tensor [6 * u], row_tensor [2 * p], row_tensor [2 * n])"
  by (simp add: forward_def bind_err_def example_model_def example_user_forward
      example_item_forward)

theorem forward_towers_witness:
  "DSSMNoInteractions_init 1 1 1 1 elu example_model \<and>
   forward example_model (row_tensor [1]) (row_tensor [2]) (row_tensor [5])
     = Inr (row_tensor [30], row_tensor [2], row_tensor [4]) \<and>
   t_cols (row_tensor [30]) = 1 \<and> length (t_rows (row_tensor [30])) = 1"
  using forward_towers [OF example_model_init, of "row_tensor [5]" "row_tensor [1]" "row_tensor [2]"]
    example_forward [of 1 2 5] example_model_init
  by (simp add: row_tensor_def)

text \<open>
  The claim as stated has the arguments in the order \<open>(user_features, item_features_pos,
  item_features_neg)\<close>. Called so, the forward pass runs the user tower on the third
  argument and the item tower on the first two: here the first output is \<open>12\<close>, the
  user tower on \<open>2\<close>, and not \<open>30\<close>, the user tower on \<open>5\<close>.
\<close>

theorem forward_argument_order_counterexample:
  "forward example_model (row_tensor [5]) (row_tensor [1]) (row_tensor [2])
     = Inr (row_tensor [12], row_tensor [10], row_tensor [2]) \<and>
   UserNet_forward (user_net example_model) (row_tensor [5]) = Inr (row_tensor [30]) \<and>
   ItemNet_forward (item_net example_model) (row_tensor [1]) = Inr (row_tensor [2]) \<and>
   ItemNet_forward (item_net example_model) (row_tensor [2]) = Inr (row_tensor [4]) \<and>
   row_tensor [12] \<noteq> row_tensor [30]"
  using example_forward [of 5 1 2] example_user_forward [of 5] example_item_forward [of 1]
    example_item_forward [of 2]
  by (simp add: example_model_def row_tensor_def)

section \<open>The triplet loss\<close>

lemma triplet_output_zip:
  "length A = length P \<Longrightarrow> length P = length N \<Longrightarrow>
   map2 (\<lambda>dp dn. max ((m::real) + dp - dn) 0) (map2 d A P) (map2 d A N)
     = map (\<lambda>(a, p, n). max 0 (m + d a p - d a n)) (zip A (zip P N))"
  by (induction A P N rule: list_induct3) (auto simp: max_def)

lemma triplet_margin_loss_formula:
  assumes "same_shape a p" and "same_shape a n" and "t_rows a \<noteq> []"
  shows "triplet_margin_loss a p n m =
           Inr (Loss (triplet_loss_formula (pairwise_distance eps) m (t_rows a) (t_rows p) (t_rows n)))"
proof -
  have lp: "length (t_rows a) = length (t_rows p)" and ln: "length (t_rows p) = length (t_rows n)"
    using assms by (simp_all add: same_shape_def)
  have ne: "zip (t_rows a) (zip (t_rows p) (t_rows n)) \<noteq> []"
    using assms(3) lp ln by (cases "t_rows a"; cases "t_rows p"; cases "t_rows n") simp_all
  show ?thesis
    using assms(1,2) ne lp ln
    by (simp add: triplet_margin_loss_def Let_def mean_reduction_def triplet_loss_formula_def
        triplet_output_zip)
qed

lemma triplet_loss_formula_nonneg: "0 \<le> triplet_loss_formula d m A P N"
  unfolding triplet_loss_formula_def
  by (intro divide_nonneg_nonneg sum_list_nonneg) auto

text \<open>
  Claim C1, as amended. For a model whose two towers have one width \<open>n_factors\<close> and a
  batch \<open>(user_features, pos, neg)\<close> of the towers' input widths with the same, non-zero
  number of rows, \<open>training_step\<close> returns (and logs) the mean over the batch of
  \<open>max 0 (margin + d anchor pos - d anchor neg)\<close>, where \<open>margin\<close> is
  \<open>triplet_loss_margin\<close> and \<open>d x y\<close> is the 2-norm of \<open>x - y + eps\<close> with
  \<open>eps = 1e-6\<close>; the value is not negative, and \<open>validation_step\<close> returns the
  same value.
\<close>

theorem training_step_loss:
  assumes "DSSMNoInteractions_init n_factors n_factors du di act self"
    and "t_cols user_features = du" and "t_cols pos = di" and "t_cols neg = di"
    and "length (t_rows pos) = length (t_rows user_features)"
    and "length (t_rows neg) = length (t_rows user_features)"
    and "t_rows user_features \<noteq> []"
  shows "\<exists>anchor positive negative L.
           forward self pos neg user_features = Inr (anchor, positive, negative) \<and>
           L = triplet_loss_formula (pairwise_distance eps) (triplet_loss_margin self)
                 (t_rows anchor) (t_rows positive) (t_rows negative) \<and>
           training_step self [user_features, pos, neg] batch_idx =
             Inr (self\<lparr>logged := logged self @ [(''loss'', Loss L, log_to_prog_bar self)]\<rparr>, Loss L) \<and>
           validation_step self [user_features, pos, neg] batch_idx =
             Inr (self\<lparr>logged := logged self @ [(''val_loss'', Loss L, log_to_prog_bar self)]\<rparr>, Loss L) \<and>
           0 \<le> L"
proof -
  obtain a p n where f: "forward self pos neg user_features = Inr (a, p, n)"
    and sh: "t_cols a = n_factors" "length (t_rows a) = length (t_rows user_features)"
            "t_cols p = n_factors" "length (t_rows p) = length (t_rows pos)"
            "t_cols n = n_factors" "length (t_rows n) = length (t_rows neg)"
    using forward_ok [OF assms(1-4)] by blast
  have s1: "same_shape a p" and s2: "same_shape a n" and ne: "t_rows a \<noteq> []"
    using sh assms(5-7) by (auto simp: same_shape_def)
  let ?L = "triplet_loss_formula (pairwise_distance eps) (triplet_loss_margin self)
              (t_rows a) (t_rows p) (t_rows n)"
  have t: "training_step self [user_features, pos, neg] batch_idx =
             Inr (self\<lparr>logged := logged self @ [(''loss'', Loss ?L, log_to_prog_bar self)]\<rparr>, Loss ?L)"
    by (simp add: training_step_def f bind_err_def triplet_margin_loss_formula [OF s1 s2 ne])
  have v: "validation_step self [user_features, pos, neg] batch_idx =
             Inr (self\<lparr>logged := logged self @ [(''val_loss'', Loss ?L, log_to_prog_bar self)]\<rparr>, Loss ?L)"
    by (simp add: validation_step_def f bind_err_def triplet_margin_loss_formula [OF s1 s2 ne])
  show ?thesis
    using f t v triplet_loss_formula_nonneg by blast
qed

lemma pairwise_distance_single: "pairwise_distance e [x] [y] = \<bar>x - y + e\<bar>"
  by (simp add: pairwise_distance_def)

lemma euclidean_distance_single: "euclidean_distance [x] [y] = \<bar>x - y\<bar>"
  by (simp add: euclidean_distance_def)

lemma example_training_step:
  assumes "0 \<le> u" "0 \<le> p" "0 \<le> n"
  shows "training_step example_model [row_tensor [u], row_tensor [p], row_tensor [n]] 0 =
     Inr (example_model\<lparr>logged := [(''loss'',
             Loss (max 0 (2 / 5 + \<bar>6 * u - 2 * p + eps\<bar> - \<bar>6 * u - 2 * n + eps\<bar>)), True)]\<rparr>,
          Loss (max 0 (2 / 5 + \<bar>6 * u - 2 * p + eps\<bar> - \<bar>6 * u - 2 * n + eps\<bar>)))"
proof -
  have sh: "same_shape (row_tensor [6 * u]) (row_tensor [2 * p])"
           "same_shape (row_tensor [6 * u]) (row_tensor [2 * n])"
           "t_rows (row_tensor [6 * u]) \<noteq> []"
    by (simp_all add: same_shape_def row_tensor_def)
  have l: "triplet_margin_loss (row_tensor [6 * u]) (row_tensor [2 * p]) (row_tensor [2 * n]) (2 / 5)
      = Inr (Loss (max 0 (2 / 5 + \<bar>6 * u - 2 * p + eps\<bar> - \<bar>6 * u - 2 * n + eps\<bar>)))"
    unfolding triplet_margin_loss_formula [OF sh]
    by (simp add: row_tensor_def triplet_loss_formula_def pairwise_distance_single)
  show ?thesis
    using l by (simp add: training_step_def example_forward [OF assms(2,3,1)] bind_err_def)
     (simp add: example_model_def)
qed

theorem training_step_loss_witness:
  "DSSMNoInteractions_init 1 1 1 1 elu example_model \<and>
   training_step example_model [row_tensor [1], row_tensor [1], row_tensor [2]] 0 =
     Inr (example_model\<lparr>logged := [(''loss'', Loss (12 / 5), True)]\<rparr>, Loss (12 / 5)) \<and>
   validation_step example_model [row_tensor [1], row_tensor [1], row_tensor [2]] 0 =
     Inr (example_model\<lparr>logged := [(''val_loss'', Loss (12 / 5), True)]\<rparr>, Loss (12 / 5)) \<and>
   (0::real) \<le> 12 / 5"
proof -
  have t: "training_step example_model [row_tensor [1], row_tensor [1], row_tensor [2]] 0 =
     Inr (example_model\<lparr>logged := [(''loss'', Loss (12 / 5), True)]\<rparr>, Loss (12 / 5))"
    using example_training_step [of 1 1 2] by (simp add: eps_def)
  from training_step_loss [OF example_model_init, of "row_tensor [1]" "row_tensor [1]"
      "row_tensor [2]" 0]
  obtain L where
    "training_step example_model [row_tensor [1], row_tensor [1], row_tensor [2]] 0 =
       Inr (example_model\<lparr>logged := logged example_model @ [(''loss'', Loss L, log_to_prog_bar example_model)]\<rparr>, Loss L)"
    "validation_step example_model [row_tensor [1], row_tensor [1], row_tensor [2]] 0 =
       Inr (example_model\<lparr>logged := logged example_model @ [(''val_loss'', Loss L, log_to_prog_bar example_model)]\<rparr>, Loss L)"
    by (auto simp: row_tensor_def)
  with t example_model_init show ?thesis
    by (auto simp: example_model_def)
qed

text \<open>
  With the Euclidean distance in the formula the claim fails: for the embeddings
  \<open>anchor = 0\<close>, \<open>pos = 0\<close>, \<open>neg = 1e-6\<close> and the margin \<open>2/5\<close> the step
  returns \<open>0.400001\<close>, and the formula with the Euclidean distance gives \<open>0.399999\<close>.
\<close>

theorem training_step_euclidean_counterexample:
  "training_step example_model [row_tensor [0], row_tensor [0], row_tensor [1 / 2000000]] 0 =
     Inr (example_model\<lparr>logged := [(''loss'', Loss (400001 / 1000000), True)]\<rparr>,
          Loss (400001 / 1000000)) \<and>
   forward example_model (row_tensor [0]) (row_tensor [1 / 2000000]) (row_tensor [0]) =
     Inr (row_tensor [0], row_tensor [0], row_tensor [1 / 1000000]) \<and>
   triplet_loss_formula euclidean_distance (triplet_loss_margin example_model)
     [[0]] [[0]] [[1 / 1000000]] = 399999 / 1000000"
  using example_training_step [of 0 0 "1 / 2000000"] example_forward [of 0 "1 / 2000000" 0]
  by (simp add: eps_def triplet_loss_formula_def euclidean_distance_single example_model_def)

section \<open>Batched inference\<close>

lemma inference_loop_ok:
  assumes "\<And>b. b \<in> set dl \<Longrightarrow> net b = Inr (out b)"
  shows "inference_loop net dl batches = Inr (batches @ map out dl)"
  using assms by (induction dl arbitrary: batches) simp_all

lemma torch_cat_same_cols:
  assumes "ts \<noteq> []" and "\<And>t. t \<in> set ts \<Longrightarrow> t_cols t = c"
  shows "torch_cat ts = Inr \<lparr>t_cols = c, t_rows = concat (map t_rows ts)\<rparr>"
  using assms by (cases ts) (auto simp: torch_cat_def list_all_iff)

lemma inference_users_rows:
  assumes "UserNet_init n_factors dim_input (user_net self)"
    and "dataloader \<noteq> []"
    and "\<And>b. b \<in> set dataloader \<Longrightarrow> t_cols b = dim_input"
  shows "inference_users self dataloader =
           Inr (self\<lparr>training := False\<rparr>,
                \<lparr>t_cols = n_factors,
                 t_rows = map (tower_spec (weight (embedding_features_layer (user_net self)))
                                 (weight (features_dense_layer (user_net self)))
                                 (weight (user_output_layer (user_net self)))
                                 (user_activation (user_net self)))
                            (concat (map t_rows dataloader))\<rparr>)"
proof -
  let ?T = "tower_spec (weight (embedding_features_layer (user_net self)))
              (weight (features_dense_layer (user_net self)))
              (weight (user_output_layer (user_net self))) (user_activation (user_net self))"
  let ?out = "\<lambda>b. \<lparr>t_cols = n_factors, t_rows = map ?T (t_rows b)\<rparr>"
  have loop: "inference_loop (UserNet_forward (user_net self)) dataloader [] = Inr ([] @ map ?out dataloader)"
    by (rule inference_loop_ok) (simp add: UserNet_forward_rows [OF assms(1)] assms(3))
  have cat: "torch_cat (map ?out dataloader) =
      Inr \<lparr>t_cols = n_factors, t_rows = concat (map t_rows (map ?out dataloader))\<rparr>"
    by (rule torch_cat_same_cols) (use assms(2) in auto)
  have "concat (map t_rows (map ?out dataloader)) = map ?T (concat (map t_rows dataloader))"
    by (simp add: map_concat o_def)
  with loop cat show ?thesis
    by (simp add: inference_users_def bind_err_def Let_def)
qed

lemma inference_items_rows:
  assumes "ItemNet_init n_factors dim_input (item_net self)"
    and "dataloader \<noteq> []"
    and "\<And>b. b \<in> set dataloader \<Longrightarrow> t_cols b = dim_input"
  shows "inference_items self dataloader =
           Inr (self\<lparr>training := False\<rparr>,
                \<lparr>t_cols = n_factors,
                 t_rows = map (tower_spec (weight (embedding_layer (item_net self)))
                                 (weight (dense_layer (item_net self)))
                                 (weight (item_output_layer (item_net self)))
                                 (item_activation (item_net self)))
                            (concat (map t_rows dataloader))\<rparr>)"
proof -
  let ?T = "tower_spec (weight (embedding_layer (item_net self)))
              (weight (dense_layer (item_net self)))
              (weight (item_output_layer (item_net self))) (item_activation (item_net self))"
  let ?out = "\<lambda>b. \<lparr>t_cols = n_factors, t_rows = map ?T (t_rows b)\<rparr>"
  have loop: "inference_loop (ItemNet_forward (item_net self)) dataloader [] = Inr ([] @ map ?out dataloader)"
    by (rule inference_loop_ok) (simp add: ItemNet_forward_rows [OF assms(1)] assms(3))
  have cat: "torch_cat (map ?out dataloader) =
      Inr \<lparr>t_cols = n_factors, t_rows = concat (map t_rows (map ?out dataloader))\<rparr>"
    by (rule torch_cat_same_cols) (use assms(2) in auto)
  have "concat (map t_rows (map ?out dataloader)) = map ?T (concat (map t_rows dataloader))"
    by (simp add: map_concat o_def)
  with loop cat show ?thesis
    by (simp add: inference_items_def bind_err_def Let_def)
qed

text \<open>
  Claim C4, as amended. For a dataloader that yields at least one batch, all of the
  tower's input width, \<open>inference_users\<close> (resp. \<open>inference_items\<close>) returns a matrix
  with as many rows as the batches hold elements in total, and its \<open>i\<close>-th row is what
  the user (resp. item) tower returns on the \<open>i\<close>-th element in iteration order.
\<close>

theorem inference_row_order:
  assumes "DSSMNoInteractions_init nu ni du di act self"
    and "dataloader \<noteq> []"
  shows "(list_all (\<lambda>b. t_cols b = du) dataloader \<longrightarrow>
           (\<exists>vectors. inference_users self dataloader = Inr (self\<lparr>training := False\<rparr>, vectors) \<and>
              t_cols vectors = nu \<and>
              length (t_rows vectors) = length (concat (map t_rows dataloader)) \<and>
              (\<forall>i < length (t_rows vectors).
                 UserNet_forward (user_net self)
                   \<lparr>t_cols = du, t_rows = [concat (map t_rows dataloader) ! i]\<rparr> =
                 Inr \<lparr>t_cols = nu, t_rows = [t_rows vectors ! i]\<rparr>))) \<and>
         (list_all (\<lambda>b. t_cols b = di) dataloader \<longrightarrow>
           (\<exists>vectors. inference_items self dataloader = Inr (self\<lparr>training := False\<rparr>, vectors) \<and>
              t_cols vectors = ni \<and>
              length (t_rows vectors) = length (concat (map t_rows dataloader)) \<and>
              (\<forall>i < length (t_rows vectors).
                 ItemNet_forward (item_net self)
                   \<lparr>t_cols = di, t_rows = [concat (map t_rows dataloader) ! i]\<rparr> =
                 Inr \<lparr>t_cols = ni, t_rows = [t_rows vectors ! i]\<rparr>)))"
proof -
  from assms(1) have u: "UserNet_init nu du (user_net self)"
    and i: "ItemNet_init ni di (item_net self)"
    by (simp_all add: DSSMNoInteractions_init_def)
  show ?thesis
  proof (intro conjI impI)
    assume "list_all (\<lambda>b. t_cols b = du) dataloader"
    then have c: "\<And>b. b \<in> set dataloader \<Longrightarrow> t_cols b = du"
      by (simp add: list_all_iff)
    show "\<exists>vectors. inference_users self dataloader = Inr (self\<lparr>training := False\<rparr>, vectors) \<and>
              t_cols vectors = nu \<and>
              length (t_rows vectors) = length (concat (map t_rows dataloader)) \<and>
              (\<forall>i < length (t_rows vectors).
                 UserNet_forward (user_net self)
                   \<lparr>t_cols = du, t_rows = [concat (map t_rows dataloader) ! i]\<rparr> =
                 Inr \<lparr>t_cols = nu, t_rows = [t_rows vectors ! i]\<rparr>)"
      by (simp add: inference_users_rows [OF u assms(2) c] UserNet_forward_rows [OF u])
  next
    assume "list_all (\<lambda>b. t_cols b = di) dataloader"
    then have c: "\<And>b. b \<in> set dataloader \<Longrightarrow> t_cols b = di"
      by (simp add: list_all_iff)
    show "\<exists>vectors. inference_items self dataloader = Inr (self\<lparr>training := False\<rparr>, vectors) \<and>
              t_cols vectors = ni \<and>
              length (t_rows vectors) = length (concat (map t_rows dataloader)) \<and>
              (\<forall>i < length (t_rows vectors).
                 ItemNet_forward (item_net self)
                   \<lparr>t_cols = di, t_rows = [concat (map t_rows dataloader) ! i]\<rparr> =
                 Inr \<lparr>t_cols = ni, t_rows = [t_rows vectors ! i]\<rparr>)"
      by (simp add: inference_items_rows [OF i assms(2) c] ItemNet_forward_rows [OF i])
  qed
qed

lemma example_inference_users:
  "inference_users example_model
     [\<lparr>t_cols = 1, t_rows = [[1], [2]]\<rparr>, \<lparr>t_cols = 1, t_rows = []\<rparr>, \<lparr>t_cols = 1, t_rows = [[3]]\<rparr>]
   = Inr (example_model\<lparr>training := False\<rparr>, \<lparr>t_cols = 1, t_rows = [[6], [12], [18]]\<rparr>)"
proof -
  have u: "UserNet_init 1 1 (user_net example_model)"
    using example_user_net_init by (simp add: example_model_def)
  have "inference_users example_model
          [\<lparr>t_cols = 1, t_rows = [[1], [2]]\<rparr>, \<lparr>t_cols = 1, t_rows = []\<rparr>, \<lparr>t_cols = 1, t_rows = [[3]]\<rparr>]
        = Inr (example_model\<lparr>training := False\<rparr>,
               \<lparr>t_cols = 1,
                t_rows = map (tower_spec (weight (embedding_features_layer (user_net example_model)))
                                 (weight (features_dense_layer (user_net example_model)))
                                 (weight (user_output_layer (user_net example_model)))
                                 (user_activation (user_net example_model)))
                            (concat (map t_rows [\<lparr>t_cols = 1, t_rows = [[1], [2]]\<rparr>,
                               \<lparr>t_cols = 1, t_rows = []\<rparr>, \<lparr>t_cols = 1, t_rows = [[3]]\<rparr>]))\<rparr>)"
    by (rule inference_users_rows [OF u]) auto
  then show ?thesis
    using tower_spec_user_example [of 1] tower_spec_user_example [of 2] tower_spec_user_example [of 3]
    by (simp add: example_model_def example_user_net_def)
qed

theorem inference_row_order_witness:
  "DSSMNoInteractions_init 1 1 1 1 elu example_model \<and>
   inference_users example_model
     [\<lparr>t_cols = 1, t_rows = [[1], [2]]\<rparr>, \<lparr>t_cols = 1, t_rows = []\<rparr>, \<lparr>t_cols = 1, t_rows = [[3]]\<rparr>]
   = Inr (example_model\<lparr>training := False\<rparr>, \<lparr>t_cols = 1, t_rows = [[6], [12], [18]]\<rparr>) \<and>
   UserNet_forward (user_net example_model) \<lparr>t_cols = 1, t_rows = [[2]]\<rparr>
   = Inr \<lparr>t_cols = 1, t_rows = [[12]]\<rparr>"
proof -
  let ?dl = "[\<lparr>t_cols = 1, t_rows = [[1], [2]]\<rparr>, \<lparr>t_cols = 1, t_rows = []\<rparr>,
              \<lparr>t_cols = 1, t_rows = [[3 :: real]]\<rparr>]"
  have "\<forall>i < 3. UserNet_forward (user_net example_model)
                   \<lparr>t_cols = 1, t_rows = [concat (map t_rows ?dl) ! i]\<rparr> =
                 Inr \<lparr>t_cols = 1, t_rows = [[[6], [12], [18]] ! i]\<rparr>"
    using inference_row_order [OF example_model_init, of ?dl] example_inference_users
    by simp
  from this [rule_format, of 1] have "UserNet_forward (user_net example_model)
                   \<lparr>t_cols = 1, t_rows = [concat (map t_rows ?dl) ! 1]\<rparr> =
                 Inr \<lparr>t_cols = 1, t_rows = [[[6], [12], [18]] ! 1]\<rparr>"
    by simp
  then show ?thesis
    using example_model_init example_inference_users by simp
qed

text \<open>
  The claim as stated includes a dataloader that yields no batch. There the list of
  outputs is empty and \<open>torch.cat\<close> raises: neither function returns a matrix.
\<close>

theorem inference_empty_dataloader_counterexample:
  "inference_users example_model [] = Inl CatEmptyList \<and>
   inference_items example_model [] = Inl CatEmptyList"
  by (simp add: inference_users_def inference_items_def bind_err_def torch_cat_def)

text \<open>
  Claim C5. A call of \<open>inference_users\<close> or \<open>inference_items\<close> that returns leaves the
  model as it was but for the mode flag, which it switches to evaluation: the weights of
  both towers are unchanged, and the same call on the returned model with the same
  dataloader returns the same matrix and the same model.
\<close>

theorem inference_frame:
  "(inference_users self dataloader = Inr (self', vectors) \<longrightarrow>
      self' = self\<lparr>training := False\<rparr> \<and>
      user_net self' = user_net self \<and> item_net self' = item_net self \<and>
      inference_users self' dataloader = Inr (self', vectors)) \<and>
   (inference_items self dataloader = Inr (self', vectors) \<longrightarrow>
      self' = self\<lparr>training := False\<rparr> \<and>
      user_net self' = user_net self \<and> item_net self' = item_net self \<and>
      inference_items self' dataloader = Inr (self', vectors))"
  by (auto simp: inference_users_def inference_items_def bind_err_def Let_def
      split: sum.splits)

theorem inference_frame_witness:
  "inference_users example_model
     [\<lparr>t_cols = 1, t_rows = [[1], [2]]\<rparr>, \<lparr>t_cols = 1, t_rows = []\<rparr>, \<lparr>t_cols = 1, t_rows = [[3]]\<rparr>]
   = Inr (example_model\<lparr>training := False\<rparr>, \<lparr>t_cols = 1, t_rows = [[6], [12], [18]]\<rparr>) \<and>
   user_net (example_model\<lparr>training := False\<rparr>) = example_user_net \<and>
   item_net (example_model\<lparr>training := False\<rparr>) = example_item_net \<and>
   inference_users (example_model\<lparr>training := False\<rparr>)
     [\<lparr>t_cols = 1, t_rows = [[1], [2]]\<rparr>, \<lparr>t_cols = 1, t_rows = []\<rparr>, \<lparr>t_cols = 1, t_rows = [[3]]\<rparr>]
   = Inr (example_model\<lparr>training := False\<rparr>, \<lparr>t_cols = 1, t_rows = [[6], [12], [18]]\<rparr>)"
  using inference_frame [of example_model
      "[\<lparr>t_cols = 1, t_rows = [[1], [2]]\<rparr>, \<lparr>t_cols = 1, t_rows = []\<rparr>, \<lparr>t_cols = 1, t_rows = [[3]]\<rparr>]"
      "example_model\<lparr>training := False\<rparr>" "\<lparr>t_cols = 1, t_rows = [[6], [12], [18]]\<rparr>"]
    example_inference_users
  by (simp add: example_model_def)

section \<open>The checks of the unique-row functions\<close>

lemma make_csr_matrix_errors:
  assumes "make_csr_matrix alloc_limit dat row col = Inl e"
  shows "e = SparseEmptyIndex \<or> e = SparseNegativeIndex \<or> e = SparseOverflow \<or>
         e = SparseAllocation"
proof (cases "row = [] \<or> col = []")
  case True
  with assms show ?thesis by (simp add: make_csr_matrix_def)
next
  case ne: False
  show ?thesis
  proof (cases "list_ex (\<lambda>v. v < 0) row \<or> list_ex (\<lambda>v. v < 0) col")
    case True
    with assms ne show ?thesis by (simp add: make_csr_matrix_def)
  next
    case nn: False
    show ?thesis
    proof (cases "2 ^ 63 \<le> max (Max (set (map nat row)) + 1) (Max (set (map nat col)) + 1)")
      case True
      with assms ne nn show ?thesis by (simp add: make_csr_matrix_def Let_def)
    next
      case False
      with assms ne nn show ?thesis
        by (cases "alloc_limit < Max (set (map nat row)) + 1 + 1")
          (simp_all add: make_csr_matrix_def Let_def)
    qed
  qed
qed

lemma fast_2d_int_unique_returns:
  assumes "is_integer_dtype (nd_dtype arr)" and "length (nd_shape arr) = 2"
  shows "\<exists>r. fast_2d_int_unique arr = Inr r"
  using assms by (simp add: fast_2d_int_unique_def Let_def split_def)

lemma fast_2d_int_unique_type_error:
  "\<not> is_integer_dtype (nd_dtype arr) \<Longrightarrow> fast_2d_int_unique arr = Inl TypeError_only_integer"
  by (simp add: fast_2d_int_unique_def)

lemma fast_2d_int_unique_shape_error:
  "is_integer_dtype (nd_dtype arr) \<Longrightarrow> length (nd_shape arr) \<noteq> 2 \<Longrightarrow>
   fast_2d_int_unique arr = Inl ValueError_only_2d"
  by (simp add: fast_2d_int_unique_def)

lemma fast_2d_2col_type_error:
  "\<not> is_integer_dtype (nd_dtype arr) \<Longrightarrow>
   fast_2d_2col_int_unique alloc_limit arr = Inl TypeError_only_integer"
  by (simp add: fast_2d_2col_int_unique_def)

lemma fast_2d_2col_shape_error:
  "is_integer_dtype (nd_dtype arr) \<Longrightarrow> length (nd_shape arr) \<noteq> 2 \<Longrightarrow>
   fast_2d_2col_int_unique alloc_limit arr = Inl ValueError_only_2d"
  by (simp add: fast_2d_2col_int_unique_def)

lemma fast_2d_2col_columns_error:
  "is_integer_dtype (nd_dtype arr) \<Longrightarrow> length (nd_shape arr) = 2 \<Longrightarrow>
   nd_shape arr ! 1 \<noteq> 2 \<Longrightarrow> fast_2d_2col_int_unique alloc_limit arr = Inl ValueError_2_columns"
  by (simp add: fast_2d_2col_int_unique_def)

lemma fast_2d_2col_empty:
  "is_integer_dtype (nd_dtype arr) \<Longrightarrow> length (nd_shape arr) = 2 \<Longrightarrow>
   nd_shape arr ! 1 = 2 \<Longrightarrow> nd_shape arr ! 0 = 0 \<Longrightarrow> fast_2d_2col_int_unique alloc_limit arr = Inr arr"
  by (simp add: fast_2d_2col_int_unique_def)

lemma fast_2d_2col_sparse:
  assumes "is_integer_dtype (nd_dtype arr)" and "length (nd_shape arr) = 2"
    and "nd_shape arr ! 1 = 2" and "nd_shape arr ! 0 \<noteq> 0"
  shows "(\<exists>r. fast_2d_2col_int_unique alloc_limit arr = Inr r) \<or>
         fast_2d_2col_int_unique alloc_limit arr = Inl SparseEmptyIndex \<or>
         fast_2d_2col_int_unique alloc_limit arr = Inl SparseNegativeIndex \<or>
         fast_2d_2col_int_unique alloc_limit arr = Inl SparseOverflow \<or>
         fast_2d_2col_int_unique alloc_limit arr = Inl SparseAllocation"
proof (cases "make_csr_matrix alloc_limit (replicate (nd_shape arr ! 0) True)
                (nd_column 0 arr) (nd_column 1 arr)")
  case (Inl e)
  then have "fast_2d_2col_int_unique alloc_limit arr = Inl e"
    using assms by (simp add: fast_2d_2col_int_unique_def bind_err_def)
  with make_csr_matrix_errors [OF Inl] show ?thesis by auto
next
  case (Inr csr)
  then have "\<exists>r. fast_2d_2col_int_unique alloc_limit arr = Inr r"
    using assms by (simp add: fast_2d_2col_int_unique_def bind_err_def Let_def)
  then show ?thesis by simp
qed

text \<open>
  Claim C9. Each of the two functions raises the type error exactly when the dtype is not
  an integer dtype, whatever the shape and the entries are. For an integer dtype,
  \<open>fast_2d_int_unique\<close> raises a shape error exactly when the array is not 2-dimensional,
  and \<open>fast_2d_2col_int_unique\<close> raises one exactly when the array is not 2-dimensional
  (the first message) or is 2-dimensional without exactly 2 columns (the second message).
  An integer array of shape \<open>(0, 2)\<close> is returned as it is.
\<close>

theorem unique_precondition_errors:
  "(fast_2d_int_unique arr = Inl TypeError_only_integer \<longleftrightarrow> \<not> is_integer_dtype (nd_dtype arr)) \<and>
   (fast_2d_2col_int_unique alloc_limit arr = Inl TypeError_only_integer \<longleftrightarrow>
      \<not> is_integer_dtype (nd_dtype arr)) \<and>
   (is_integer_dtype (nd_dtype arr) \<longrightarrow>
      (fast_2d_int_unique arr = Inl ValueError_only_2d \<longleftrightarrow> length (nd_shape arr) \<noteq> 2) \<and>
      fast_2d_int_unique arr \<noteq> Inl ValueError_2_columns \<and>
      (fast_2d_2col_int_unique alloc_limit arr = Inl ValueError_only_2d \<longleftrightarrow> length (nd_shape arr) \<noteq> 2) \<and>
      (fast_2d_2col_int_unique alloc_limit arr = Inl ValueError_2_columns \<longleftrightarrow>
         length (nd_shape arr) = 2 \<and> nd_shape arr ! 1 \<noteq> 2) \<and>
      (length (nd_shape arr) = 2 \<and> nd_shape arr ! 1 = 2 \<and> nd_shape arr ! 0 = 0 \<longrightarrow>
         fast_2d_2col_int_unique alloc_limit arr = Inr arr))"
proof (cases "is_integer_dtype (nd_dtype arr)")
  case False
  then show ?thesis
    by (simp add: fast_2d_int_unique_type_error fast_2d_2col_type_error)
next
  case int: True
  show ?thesis
  proof (cases "length (nd_shape arr) = 2")
    case False
    then show ?thesis
      using int by (simp add: fast_2d_int_unique_shape_error fast_2d_2col_shape_error)
  next
    case d2: True
    obtain r where r: "fast_2d_int_unique arr = Inr r"
      using fast_2d_int_unique_returns [OF int d2] by blast
    show ?thesis
    proof (cases "nd_shape arr ! 1 = 2")
      case False
      then show ?thesis
        using int d2 r by (simp add: fast_2d_2col_columns_error)
    next
      case c2: True
      show ?thesis
      proof (cases "nd_shape arr ! 0 = 0")
        case True
        then show ?thesis
          using int d2 c2 r by (simp add: fast_2d_2col_empty)
      next
        case False
        from fast_2d_2col_sparse [OF int d2 c2 False, of alloc_limit] show ?thesis
          using int d2 c2 False r by auto
      qed
    qed
  qed
qed

theorem unique_precondition_errors_witness:
  "fast_2d_int_unique \<lparr>nd_dtype = Float64, nd_shape = [1, 2], nd_data = [1, 2]\<rparr>
     = Inl TypeError_only_integer \<and>
   fast_2d_2col_int_unique 1000 \<lparr>nd_dtype = Float64, nd_shape = [2], nd_data = [1, 2]\<rparr>
     = Inl TypeError_only_integer \<and>
   fast_2d_int_unique \<lparr>nd_dtype = Int64, nd_shape = [2], nd_data = [1, 2]\<rparr>
     = Inl ValueError_only_2d \<and>
   fast_2d_2col_int_unique 1000 \<lparr>nd_dtype = Int64, nd_shape = [2], nd_data = [1, 2]\<rparr>
     = Inl ValueError_only_2d \<and>
   fast_2d_2col_int_unique 1000 \<lparr>nd_dtype = Int64, nd_shape = [1, 3], nd_data = [1, 2, 3]\<rparr>
     = Inl ValueError_2_columns \<and>
   fast_2d_2col_int_unique 1000 \<lparr>nd_dtype = Int64, nd_shape = [0, 2], nd_data = []\<rparr>
     = Inr \<lparr>nd_dtype = Int64, nd_shape = [0, 2], nd_data = []\<rparr>"
  using unique_precondition_errors [of "\<lparr>nd_dtype = Float64, nd_shape = [1, 2], nd_data = [1, 2]\<rparr>" 1000]
    unique_precondition_errors [of "\<lparr>nd_dtype = Float64, nd_shape = [2], nd_data = [1, 2]\<rparr>" 1000]
    unique_precondition_errors [of "\<lparr>nd_dtype = Int64, nd_shape = [2], nd_data = [1, 2]\<rparr>" 1000]
    unique_precondition_errors [of "\<lparr>nd_dtype = Int64, nd_shape = [1, 3], nd_data = [1, 2, 3]\<rparr>" 1000]
    unique_precondition_errors [of "\<lparr>nd_dtype = Int64, nd_shape = [0, 2], nd_data = []\<rparr>" 1000]
  by simp

section \<open>Negative entries\<close>

lemma nd_column_nth:
  assumes "nd_shape arr = [n, m]" and "length (nd_data arr) = n * m" and "j < m"
  shows "nd_column j arr = map (\<lambda>i. nd_data arr ! (i * m + j)) [0..<n]"
proof -
  have "take m (drop (i * m) (nd_data arr)) ! j = nd_data arr ! (i * m + j)" if "i < n" for i
  proof -
    have "i * m + m \<le> n * m"
      using that by (metis Suc_leI mult_Suc mult_le_mono1 add.commute)
    then have "i * m \<le> length (nd_data arr)" using assms(2) by linarith
    then show ?thesis using assms(3) by simp
  qed
  then show ?thesis
    using assms(1) by (simp add: nd_column_def nd_rows_def)
qed

lemma negative_entry_in_column:
  assumes "nd_shape arr = [n, 2]" and "length (nd_data arr) = n * 2"
    and "v \<in> set (nd_data arr)" and "v < 0"
  shows "list_ex (\<lambda>v. v < 0) (nd_column 0 arr) \<or> list_ex (\<lambda>v. v < 0) (nd_column 1 arr)"
proof -
  from assms(3) obtain k where k: "k < n * 2" "nd_data arr ! k = v"
    using assms(2) by (metis in_set_conv_nth)
  have i: "k div 2 < n" using k(1) by simp
  have "k = (k div 2) * 2 + 0 \<or> k = (k div 2) * 2 + 1" by presburger
  then show ?thesis
  proof
    assume e: "k = (k div 2) * 2 + 0"
    have c: "nd_column 0 arr = map (\<lambda>i. nd_data arr ! (i * 2 + 0)) [0..<n]"
      by (rule nd_column_nth [OF assms(1,2)]) simp
    have "nd_data arr ! ((k div 2) * 2 + 0) \<in> set (nd_column 0 arr)"
      unfolding c using i by (auto simp: image_iff intro!: bexI [where x = "k div 2"])
    with e k(2) assms(4) show ?thesis by (auto simp: list_ex_iff)
  next
    assume e: "k = (k div 2) * 2 + 1"
    have c: "nd_column 1 arr = map (\<lambda>i. nd_data arr ! (i * 2 + 1)) [0..<n]"
      by (rule nd_column_nth [OF assms(1,2)]) simp
    have "nd_data arr ! ((k div 2) * 2 + 1) \<in> set (nd_column 1 arr)"
      unfolding c using i by (auto simp: image_iff intro!: bexI [where x = "k div 2"])
    with e k(2) assms(4) show ?thesis by (auto simp: list_ex_iff)
  qed
qed

text \<open>
  Claim C10. On a non-empty integer array of shape \<open>(n, 2)\<close>, which passes every check
  of the function, with a negative entry, \<open>fast_2d_2col_int_unique\<close> does not return:
  the construction of the sparse matrix raises.
\<close>

theorem negative_entry_raises:
  assumes "is_integer_dtype (nd_dtype arr)" and "nd_shape arr = [n, 2]" and "0 < n"
    and "length (nd_data arr) = n * 2" and "list_ex (\<lambda>v. v < 0) (nd_data arr)"
  shows "fast_2d_2col_int_unique alloc_limit arr = Inl SparseNegativeIndex"
proof -
  from assms(5) obtain v where v: "v \<in> set (nd_data arr)" "v < 0"
    by (auto simp: list_ex_iff)
  have neg: "list_ex (\<lambda>v. v < 0) (nd_column 0 arr) \<or> list_ex (\<lambda>v. v < 0) (nd_column 1 arr)"
    by (rule negative_entry_in_column [OF assms(2,4) v])
  have ne: "nd_column 0 arr \<noteq> []" "nd_column 1 arr \<noteq> []"
    using assms(2,3) by (simp_all add: nd_column_def nd_rows_def)
  have "make_csr_matrix alloc_limit (replicate n True) (nd_column 0 arr) (nd_column 1 arr)
          = Inl SparseNegativeIndex"
    using neg ne by (simp add: make_csr_matrix_def)
  then show ?thesis
    using assms(1,2,3) by (simp add: fast_2d_2col_int_unique_def bind_err_def)
qed

theorem negative_entry_raises_witness:
  "is_integer_dtype Int64 \<and>
   fast_2d_2col_int_unique 1000 \<lparr>nd_dtype = Int64, nd_shape = [2, 2], nd_data = [1, 1, 2, - 1]\<rparr>
     = Inl SparseNegativeIndex"
  using negative_entry_raises [of "\<lparr>nd_dtype = Int64, nd_shape = [2, 2], nd_data = [1, 1, 2, - 1]\<rparr>" 2 1000]
  by simp

section \<open>Membership tests\<close>

text \<open>
  On a sorted array the two searches return the ends of the run of entries equal to the
  key, so the two membership tests agree whenever no candidate is repeated.
\<close>

lemma binsearch_left_bounds:
  assumes "sorted a" and "lo \<le> hi" and "hi \<le> length a"
    and "\<forall>i<lo. a ! i < key" and "\<forall>i. hi \<le> i \<and> i < length a \<longrightarrow> key \<le> a ! i"
  shows "binsearch_left a key lo hi \<le> length a \<and>
         (\<forall>i<binsearch_left a key lo hi. a ! i < key) \<and>
         (\<forall>i. binsearch_left a key lo hi \<le> i \<and> i < length a \<longrightarrow> key \<le> a ! i)"
  using assms
proof (induction a key lo hi rule: binsearch_left.induct)
  case (1 a key lo hi)
  show ?case
  proof (cases "lo < hi")
    case False
    then have "lo = hi" using "1.prems"(2) by simp
    moreover have "binsearch_left a key lo hi = lo"
      using False by (simp add: binsearch_left.simps [of a key lo hi])
    ultimately show ?thesis
      using "1.prems" by simp
  next
    case True
    define mid where "mid = lo + (hi - lo) div 2"
    have m: "lo \<le> mid" "mid < hi" "mid < length a"
      using True "1.prems"(3) by (simp_all add: mid_def)
    show ?thesis
    proof (cases "a ! mid < key")
      case lt: True
      have below: "\<forall>i<mid + 1. a ! i < key"
      proof (intro allI impI)
        fix i assume "i < mid + 1"
        then have "a ! i \<le> a ! mid"
          using "1.prems"(1) m(3) by (simp add: sorted_nth_mono)
        with lt show "a ! i < key" by simp
      qed
      have "binsearch_left a key lo hi = binsearch_left a key (mid + 1) hi"
        using True lt by (simp add: binsearch_left.simps [of a key lo hi] mid_def Let_def)
      moreover have "binsearch_left a key (mid + 1) hi \<le> length a \<and>
         (\<forall>i<binsearch_left a key (mid + 1) hi. a ! i < key) \<and>
         (\<forall>i. binsearch_left a key (mid + 1) hi \<le> i \<and> i < length a \<longrightarrow> key \<le> a ! i)"
        using "1.IH"(1) [OF True mid_def lt "1.prems"(1) _ "1.prems"(3) below "1.prems"(5)] m
        by simp
      ultimately show ?thesis by simp
    next
      case ge: False
      have above: "\<forall>i. mid \<le> i \<and> i < length a \<longrightarrow> key \<le> a ! i"
      proof (intro allI impI)
        fix i assume "mid \<le> i \<and> i < length a"
        then have "a ! mid \<le> a ! i"
          using "1.prems"(1) by (simp add: sorted_nth_mono)
        with ge show "key \<le> a ! i" by simp
      qed
      have "binsearch_left a key lo hi = binsearch_left a key lo mid"
        using True ge by (simp add: binsearch_left.simps [of a key lo hi] mid_def Let_def)
      moreover have "binsearch_left a key lo mid \<le> length a \<and>
         (\<forall>i<binsearch_left a key lo mid. a ! i < key) \<and>
         (\<forall>i. binsearch_left a key lo mid \<le> i \<and> i < length a \<longrightarrow> key \<le> a ! i)"
        using "1.IH"(2) [OF True mid_def ge "1.prems"(1) m(1) _ "1.prems"(4) above] m
        by simp
      ultimately show ?thesis by simp
    qed
  qed
qed

lemma binsearch_right_bounds:
  assumes "sorted a" and "lo \<le> hi" and "hi \<le> length a"
    and "\<forall>i<lo. a ! i \<le> key" and "\<forall>i. hi \<le> i \<and> i < length a \<longrightarrow> key < a ! i"
  shows "binsearch_right a key lo hi \<le> length a \<and>
         (\<forall>i<binsearch_right a key lo hi. a ! i \<le> key) \<and>
         (\<forall>i. binsearch_right a key lo hi \<le> i \<and> i < length a \<longrightarrow> key < a ! i)"
  using assms
proof (induction a key lo hi rule: binsearch_right.induct)
  case (1 a key lo hi)
  show ?case
  proof (cases "lo < hi")
    case False
    then have "lo = hi" using "1.prems"(2) by simp
    moreover have "binsearch_right a key lo hi = lo"
      using False by (simp add: binsearch_right.simps [of a key lo hi])
    ultimately show ?thesis
      using "1.prems" by simp
  next
    case True
    define mid where "mid = lo + (hi - lo) div 2"
    have m: "lo \<le> mid" "mid < hi" "mid < length a"
      using True "1.prems"(3) by (simp_all add: mid_def)
    show ?thesis
    proof (cases "a ! mid \<le> key")
      case lt: True
      have below: "\<forall>i<mid + 1. a ! i \<le> key"
      proof (intro allI impI)
        fix i assume "i < mid + 1"
        then have "a ! i \<le> a ! mid"
          using "1.prems"(1) m(3) by (simp add: sorted_nth_mono)
        with lt show "a ! i \<le> key" by simp
      qed
      have "binsearch_right a key lo hi = binsearch_right a key (mid + 1) hi"
        using True lt by (simp add: binsearch_right.simps [of a key lo hi] mid_def Let_def)
      moreover have "binsearch_right a key (mid + 1) hi \<le> length a \<and>
         (\<forall>i<binsearch_right a key (mid + 1) hi. a ! i \<le> key) \<and>
         (\<forall>i. binsearch_right a key (mid + 1) hi \<le> i \<and> i < length a \<longrightarrow> key < a ! i)"
        using "1.IH"(1) [OF True mid_def lt "1.prems"(1) _ "1.prems"(3) below "1.prems"(5)] m
        by simp
      ultimately show ?thesis by simp
    next
      case ge: False
      have above: "\<forall>i. mid \<le> i \<and> i < length a \<longrightarrow> key < a ! i"
      proof (intro allI impI)
        fix i assume "mid \<le> i \<and> i < length a"
        then have "a ! mid \<le> a ! i"
          using "1.prems"(1) by (simp add: sorted_nth_mono)
        with ge show "key < a ! i" by simp
      qed
      have "binsearch_right a key lo hi = binsearch_right a key lo mid"
        using True ge by (simp add: binsearch_right.simps [of a key lo hi] mid_def Let_def)
      moreover have "binsearch_right a key lo mid \<le> length a \<and>
         (\<forall>i<binsearch_right a key lo mid. a ! i \<le> key) \<and>
         (\<forall>i. binsearch_right a key lo mid \<le> i \<and> i < length a \<longrightarrow> key < a ! i)"
        using "1.IH"(2) [OF True mid_def ge "1.prems"(1) m(1) _ "1.prems"(4) above] m
        by simp
      ultimately show ?thesis by simp
    qed
  qed
qed


lemma isin_sorted_distinct:
  assumes "sorted a" and "distinct a"
  shows "(binsearch_right a key 0 (length a) = binsearch_left a key 0 (length a) + 1)
           \<longleftrightarrow> key \<in> set a"
proof -
  define l where "l = binsearch_left a key 0 (length a)"
  define r where "r = binsearch_right a key 0 (length a)"
  have t1: "\<forall>i. length a \<le> i \<and> i < length a \<longrightarrow> key \<le> a ! i"
    and t2: "\<forall>i. length a \<le> i \<and> i < length a \<longrightarrow> key < a ! i"
    by auto
  have L: "l \<le> length a" "\<forall>i<l. a ! i < key" "\<forall>i. l \<le> i \<and> i < length a \<longrightarrow> key \<le> a ! i"
    using binsearch_left_bounds [OF assms(1) _ _ _ t1, of 0] unfolding l_def by auto
  have R: "r \<le> length a" "\<forall>i<r. a ! i \<le> key" "\<forall>i. r \<le> i \<and> i < length a \<longrightarrow> key < a ! i"
    using binsearch_right_bounds [OF assms(1) _ _ _ t2, of 0] unfolding r_def by auto
  have run: "a ! i = key \<longleftrightarrow> l \<le> i \<and> i < r" if "i < length a" for i
  proof
    assume "a ! i = key"
    then show "l \<le> i \<and> i < r"
      using L(2) R(3) that by (metis less_irrefl not_le_imp_less)
  next
    assume "l \<le> i \<and> i < r"
    then show "a ! i = key"
      using L(3) R(2) that by (simp add: order_antisym)
  qed
  have short: "r \<le> l + 1"
  proof (rule ccontr)
    assume "\<not> r \<le> l + 1"
    then have "l < length a" "l + 1 < length a" "l + 1 < r"
      using R(1) by simp_all
    then have "a ! l = key" "a ! (l + 1) = key"
      using run [of l] run [of "l + 1"] by simp_all
    then have "a ! l = a ! (l + 1)"
      by simp
    then have "l = l + 1"
      using assms(2) \<open>l < length a\<close> \<open>l + 1 < length a\<close>
      by (simp only: nth_eq_iff_index_eq)
    then show False by simp
  qed
  show ?thesis
  proof
    assume "binsearch_right a key 0 (length a) = binsearch_left a key 0 (length a) + 1"
    then have "r = l + 1" by (simp add: l_def r_def)
    then have "l < length a" "a ! l = key"
      using R(1) run [of l] by simp_all
    then show "key \<in> set a" by auto
  next
    assume "key \<in> set a"
    then obtain i where "i < length a" "a ! i = key"
      by (auto simp: in_set_conv_nth)
    then have "l < r" using run [of i] by simp
    with short have "r = l + 1" by simp
    then show "binsearch_right a key 0 (length a) = binsearch_left a key 0 (length a) + 1"
      by (simp add: l_def r_def)
  qed
qed

lemma isin_agree_on_distinct_candidates:
  assumes "distinct (elems candidates)"
  shows "fast_isin elements candidates
           = fast_isin_for_sorted_test_elements (elems elements) (sort (elems candidates)) False"
proof -
  have "(binsearch_right (sort (elems candidates)) key 0 (length (sort (elems candidates)))
          = binsearch_left (sort (elems candidates)) key 0 (length (sort (elems candidates))) + 1)
        \<longleftrightarrow> key \<in> set (elems candidates)" for key
    using isin_sorted_distinct [of "sort (elems candidates)" key] assms by simp
  then have "map2 (\<lambda>r l. r = l + 1)
               (map (\<lambda>key. binsearch_right (sort (elems candidates)) key 0
                              (length (sort (elems candidates)))) (elems elements))
               (map (\<lambda>key. binsearch_left (sort (elems candidates)) key 0
                              (length (sort (elems candidates)))) (elems elements))
             = map (\<lambda>e. e \<in> set (elems candidates)) (elems elements)"
    by (simp add: map2_map_same del: length_sort)
  then show ?thesis
    by (simp add: fast_isin_def np_isin_def series_isin_def
        fast_isin_for_sorted_test_elements_def searchsorted_def del: length_sort)
qed

lemma example_isin_sorted:
  "searchsorted (sort [1, 1 :: int]) [1] Left = [0]"
  "searchsorted (sort [1, 1 :: int]) [1] Right = [2]"
  "fast_isin_for_sorted_test_elements [1 :: int] (sort [1, 1]) False = [False]"
  "fast_isin_for_sorted_test_elements [1 :: int] (sort [1, 1]) True = [True]"
  by code_simp+

text \<open>
  Claim C8 fails on the code when a candidate occurs twice. For \<open>elements = [1]\<close> and
  \<open>candidates = [1, 1]\<close>, \<open>fast_isin\<close> answers \<open>[True]\<close> on both of its paths, while
  \<open>fast_isin_for_sorted_test_elements\<close> on the sorted candidates finds the insertion
  points \<open>0\<close> and \<open>2\<close>, which do not differ by one, and answers \<open>[False]\<close>
  (and \<open>[True]\<close> with \<open>invert\<close>).
\<close>

theorem isin_sorted_duplicate_candidates:
  "fast_isin \<lparr>is_object_dtype = False, elems = [1 :: int]\<rparr>
             \<lparr>is_object_dtype = False, elems = [1, 1]\<rparr> = [True] \<and>
   fast_isin \<lparr>is_object_dtype = True, elems = [1 :: int]\<rparr>
             \<lparr>is_object_dtype = True, elems = [1, 1]\<rparr> = [True] \<and>
   sort [1, 1 :: int] = [1, 1] \<and>
   searchsorted (sort [1, 1 :: int]) [1] Left = [0] \<and>
   searchsorted (sort [1, 1 :: int]) [1] Right = [2] \<and>
   fast_isin_for_sorted_test_elements [1 :: int] (sort [1, 1]) False = [False] \<and>
   fast_isin_for_sorted_test_elements [1 :: int] (sort [1, 1]) True = [True]"
  unfolding example_isin_sorted
  by (simp add: fast_isin_def np_isin_def series_isin_def)

section \<open>Unique rows through the byte view\<close>

lemma length_to_bytes: "length (to_bytes k v) = k"
  by (induction k arbitrary: v) simp_all

lemma unsigned_of_to_bytes: "unsigned_of_bytes (to_bytes k v) = v mod 256 ^ k"
proof (induction k arbitrary: v)
  case 0
  show ?case by simp
next
  case (Suc k)
  have "v mod (256 * 256 ^ k) = 256 * (v div 256 mod 256 ^ k) + v mod 256"
    by (rule zmod_zmult2_eq) simp
  with Suc show ?case by simp
qed

lemma itemsize_pos: "0 < itemsize dt"
  by (cases dt) simp_all

lemma from_to_bytes:
  assumes "in_range dt v"
  shows "from_bytes (is_signed dt) (to_bytes (itemsize dt) v) = v"
proof -
  let ?k = "itemsize dt"
  have p: "(256::int) ^ ?k = 2 ^ (8 * ?k)"
    by (simp add: power_mult)
  have h: "(2::int) ^ (8 * ?k) = 2 * 2 ^ (8 * ?k - 1)"
    using itemsize_pos [of dt] by (cases "8 * ?k") simp_all
  show ?thesis
  proof (cases "is_signed dt")
    case False
    with assms have "0 \<le> v" "v < 2 ^ (8 * ?k)"
      by (simp_all add: in_range_def)
    then show ?thesis
      using False by (simp add: from_bytes_def unsigned_of_to_bytes p)
  next
    case True
    with assms have r: "- (2 ^ (8 * ?k - 1)) \<le> v" "v < 2 ^ (8 * ?k - 1)"
      by (simp_all add: in_range_def)
    show ?thesis
    proof (cases "0 \<le> v")
      case nonneg: True
      then have "v mod 2 ^ (8 * ?k) = v"
        using r(2) h by simp
      then show ?thesis
        using True r(2) by (simp add: from_bytes_def unsigned_of_to_bytes p length_to_bytes)
    next
      case neg: False
      have "v mod 2 ^ (8 * ?k) = v + 2 ^ (8 * ?k)"
        using neg r(1) h by (intro int_mod_pos_eq [where q = "- 1"]) simp_all
      then show ?thesis
        using True neg r(1) h by (simp add: from_bytes_def unsigned_of_to_bytes p length_to_bytes)
    qed
  qed
qed

lemma chunk_concat:
  assumes "\<And>x. x \<in> set xss \<Longrightarrow> length x = k" and "j < length xss"
  shows "take k (drop (j * k) (concat xss)) = xss ! j"
  using assms
proof (induction xss arbitrary: j)
  case Nil
  then show ?case by simp
next
  case (Cons x xss)
  then have lx: "length x = k" by simp
  show ?case
  proof (cases j)
    case 0
    then show ?thesis using lx by simp
  next
    case (Suc i)
    then have "take k (drop (i * k) (concat xss)) = xss ! i"
      using Cons by simp
    then show ?thesis using Suc lx by simp
  qed
qed

lemma length_concat_const:
  assumes "\<And>x. x \<in> set xss \<Longrightarrow> length x = k"
  shows "length (concat xss) = length xss * k"
  using assms by (induction xss) simp_all


lemma view_ints_blob:
  assumes "list_all (in_range dt) row"
  shows "view_ints dt (concat (map (to_bytes (itemsize dt)) row)) = row"
proof -
  let ?k = "itemsize dt"
  let ?bs = "map (to_bytes ?k) row"
  have len: "\<And>x. x \<in> set ?bs \<Longrightarrow> length x = ?k"
    by (auto simp: length_to_bytes)
  have "length (concat ?bs) = length ?bs * ?k"
    by (rule length_concat_const) (rule len)
  then have l: "length (concat ?bs) div ?k = length row"
    using itemsize_pos [of dt] by simp
  have "from_bytes (is_signed dt) (take ?k (drop (j * ?k) (concat ?bs))) = row ! j"
    if "j < length row" for j
  proof -
    have "take ?k (drop (j * ?k) (concat ?bs)) = to_bytes ?k (row ! j)"
      using chunk_concat [of ?bs ?k j, OF len] that by simp
    moreover have "in_range dt (row ! j)"
      using assms that by (simp add: list_all_length)
    ultimately show ?thesis
      by (simp add: from_to_bytes)
  qed
  then have "map (\<lambda>j. from_bytes (is_signed dt) (take ?k (drop (j * ?k) (concat ?bs))))
               [0..<length row] = map (\<lambda>j. row ! j) [0..<length row]"
    by simp
  then show ?thesis
    by (simp add: view_ints_def l Let_def map_nth)
qed

lemma nd_rows_concat:
  assumes "\<And>r. r \<in> set rs \<Longrightarrow> length r = m"
  shows "nd_rows \<lparr>nd_dtype = dt, nd_shape = [length rs, m], nd_data = concat rs\<rparr> = rs"
proof -
  have "map (\<lambda>i. take m (drop (i * m) (concat rs))) [0..<length rs] = map (\<lambda>i. rs ! i) [0..<length rs]"
    using chunk_concat [of rs m] assms by simp
  then show ?thesis
    by (simp add: nd_rows_def map_nth)
qed

lemma nd_rows_wf:
  assumes "ndarray_wf arr" and "nd_shape arr = [n, m]"
  shows "length (nd_rows arr) = n"
    and "\<And>r. r \<in> set (nd_rows arr) \<Longrightarrow> length r = m"
    and "\<And>r. r \<in> set (nd_rows arr) \<Longrightarrow> list_all (in_range (nd_dtype arr)) r"
proof -
  have len: "length (nd_data arr) = n * m"
    and rng: "\<And>v. v \<in> set (nd_data arr) \<Longrightarrow> in_range (nd_dtype arr) v"
    using assms by (simp_all add: ndarray_wf_def list_all_iff)
  show "length (nd_rows arr) = n"
    using assms(2) by (simp add: nd_rows_def)
  show "length r = m" if "r \<in> set (nd_rows arr)" for r
  proof -
    from that obtain i where i: "i < n" and r: "r = take m (drop (i * m) (nd_data arr))"
      using assms(2) by (auto simp: nd_rows_def)
    have "i * m + m \<le> n * m"
      using i by (metis Suc_leI mult_Suc mult_le_mono1 add.commute)
    then show ?thesis
      using r len by simp
  qed
  show "list_all (in_range (nd_dtype arr)) r" if "r \<in> set (nd_rows arr)" for r
  proof -
    from that obtain i where r: "r = take m (drop (i * m) (nd_data arr))"
      using assms(2) by (auto simp: nd_rows_def)
    have "set r \<subseteq> set (nd_data arr)"
      unfolding r by (meson set_take_subset set_drop_subset subset_trans)
    then show ?thesis
      using rng by (auto simp: list_all_iff)
  qed
qed

lemma index_of_nth: "x \<in> set xs \<Longrightarrow> index_of x xs < length xs \<and> xs ! index_of x xs = x"
  by (induction xs) auto


lemma fast_2d_int_unique_result:
  assumes "is_integer_dtype (nd_dtype arr)" and "nd_shape arr = [n, m]" and "0 < m"
  shows "fast_2d_int_unique arr =
     Inr (\<lparr>nd_dtype = nd_dtype arr,
           nd_shape = [length (sort (remdups (map (\<lambda>r. concat (map (to_bytes (itemsize (nd_dtype arr))) r))
                                 (nd_rows arr)))), m],
           nd_data = concat (map (view_ints (nd_dtype arr))
                       (sort (remdups (map (\<lambda>r. concat (map (to_bytes (itemsize (nd_dtype arr))) r))
                                 (nd_rows arr)))))\<rparr>,
          map (\<lambda>x. index_of x
                 (sort (remdups (map (\<lambda>r. concat (map (to_bytes (itemsize (nd_dtype arr))) r))
                                 (nd_rows arr)))))
            (map (\<lambda>r. concat (map (to_bytes (itemsize (nd_dtype arr))) r)) (nd_rows arr)))"
  using assms
  by (simp add: fast_2d_int_unique_def view_void_def np_unique_inverse_def Let_def)

text \<open>
  Claim C6, as amended. For a well-formed 2-dimensional integer array with at least one
  column, \<open>fast_2d_int_unique\<close> returns \<open>(unq, inv)\<close> with one index per input row,
  \<open>unq[inv[i]] = arr[i]\<close> for every row index \<open>i\<close>, and no two rows of \<open>unq\<close> equal.
\<close>

theorem unique_rows_reconstruct:
  assumes "is_integer_dtype (nd_dtype arr)" and "nd_shape arr = [n, m]" and "0 < m"
    and "ndarray_wf arr"
  shows "\<exists>unq inv. fast_2d_int_unique arr = Inr (unq, inv) \<and>
           nd_dtype unq = nd_dtype arr \<and>
           nd_shape unq = [length (nd_rows unq), m] \<and>
           length inv = n \<and>
           (\<forall>i<n. inv ! i < length (nd_rows unq) \<and> nd_rows unq ! (inv ! i) = nd_rows arr ! i) \<and>
           distinct (nd_rows unq)"
proof -
  define dt where "dt = nd_dtype arr"
  define blob where "blob = (\<lambda>r. concat (map (to_bytes (itemsize dt)) r))"
  define R where "R = nd_rows arr"
  define u where "u = sort (remdups (map blob R))"
  define D where "D = map (view_ints dt) u"
  define unq where "unq = \<lparr>nd_dtype = dt, nd_shape = [length u, m], nd_data = concat D\<rparr>"
  define inv where "inv = map (\<lambda>x. index_of x u) (map blob R)"
  have wf1: "length R = n"
    and wf2: "\<And>r. r \<in> set R \<Longrightarrow> length r = m"
    and wf3: "\<And>r. r \<in> set R \<Longrightarrow> list_all (in_range dt) r"
    unfolding R_def dt_def
    using nd_rows_wf [OF assms(4,2)] by blast+
  have res: "fast_2d_int_unique arr = Inr (unq, inv)"
    unfolding unq_def inv_def D_def u_def blob_def R_def dt_def
    by (rule fast_2d_int_unique_result [OF assms(1-3)])
  have dec: "view_ints dt (blob r) = r" if "r \<in> set R" for r
    unfolding blob_def using wf3 [OF that] by (rule view_ints_blob)
  have u_set: "set u = blob ` set R"
    by (simp add: u_def)
  have u_dist: "distinct u"
    by (simp add: u_def)
  have D_len: "length r = m" if "r \<in> set D" for r
  proof -
    from that u_set obtain r0 where "r0 \<in> set R" "r = view_ints dt (blob r0)"
      by (auto simp: D_def)
    then show ?thesis using dec wf2 by simp
  qed
  have "nd_rows \<lparr>nd_dtype = dt, nd_shape = [length D, m], nd_data = concat D\<rparr> = D"
    by (rule nd_rows_concat) (rule D_len)
  then have rows: "nd_rows unq = D"
    by (simp add: unq_def D_def)
  have recon: "inv ! i < length (nd_rows unq) \<and> nd_rows unq ! (inv ! i) = nd_rows arr ! i"
    if "i < n" for i
  proof -
    have iR: "R ! i \<in> set R"
      using that wf1 by simp
    then have "blob (R ! i) \<in> set u"
      using u_set by blast
    from index_of_nth [OF this]
    have idx: "index_of (blob (R ! i)) u < length u"
      and val: "u ! index_of (blob (R ! i)) u = blob (R ! i)"
      by simp_all
    have inv_i: "inv ! i = index_of (blob (R ! i)) u"
      using that wf1 by (simp add: inv_def)
    have "D ! (inv ! i) = view_ints dt (u ! (inv ! i))"
      unfolding D_def using idx inv_i by simp
    also have "\<dots> = R ! i"
      unfolding inv_i val by (rule dec [OF iR])
    finally have "D ! (inv ! i) = R ! i" .
    moreover have "inv ! i < length D"
      using idx inv_i by (simp add: D_def)
    ultimately show ?thesis
      by (simp add: rows R_def)
  qed
  have inj: "inj_on (view_ints dt) (set u)"
  proof (rule inj_onI)
    fix x y
    assume "x \<in> set u" "y \<in> set u" and e: "view_ints dt x = view_ints dt y"
    then obtain rx ry where "rx \<in> set R" "x = blob rx" "ry \<in> set R" "y = blob ry"
      using u_set by auto
    with e dec show "x = y" by simp
  qed
  have dist: "distinct (nd_rows unq)"
    unfolding rows D_def using u_dist inj by (simp add: distinct_map)
  have "length inv = n"
    using wf1 by (simp add: inv_def)
  moreover have "nd_shape unq = [length (nd_rows unq), m]"
    unfolding rows by (simp add: unq_def D_def)
  moreover have "nd_dtype unq = nd_dtype arr"
    by (simp add: unq_def dt_def)
  ultimately show ?thesis
    using res recon dist by blast
qed


lemma example_unique_rows:
  "fast_2d_int_unique \<lparr>nd_dtype = Int16, nd_shape = [3, 2], nd_data = [- 1, 2, 1, 1, - 1, 2]\<rparr>
     = Inr (\<lparr>nd_dtype = Int16, nd_shape = [2, 2], nd_data = [1, 1, - 1, 2]\<rparr>, [1, 0, 1])"
  by code_simp

lemma example_unique_rows_wf:
  "ndarray_wf \<lparr>nd_dtype = Int16, nd_shape = [3, 2], nd_data = [- 1, 2, 1, 1, - 1, 2]\<rparr>"
  by (simp add: ndarray_wf_def in_range_def)

lemma example_unique_rows_in:
  "nd_rows \<lparr>nd_dtype = Int16, nd_shape = [3, 2], nd_data = [- 1, 2, 1, 1, - 1, 2]\<rparr>
     = [[- 1, 2], [1, 1], [- 1, 2]]"
  by code_simp

lemma example_unique_rows_out:
  "nd_rows \<lparr>nd_dtype = Int16, nd_shape = [2, 2], nd_data = [1, 1, - 1, 2]\<rparr>
     = [[1, 1], [- 1, 2]]"
  by code_simp

theorem unique_rows_reconstruct_witness:
  "ndarray_wf \<lparr>nd_dtype = Int16, nd_shape = [3, 2], nd_data = [- 1, 2, 1, 1, - 1, 2]\<rparr> \<and>
   fast_2d_int_unique \<lparr>nd_dtype = Int16, nd_shape = [3, 2], nd_data = [- 1, 2, 1, 1, - 1, 2]\<rparr>
     = Inr (\<lparr>nd_dtype = Int16, nd_shape = [2, 2], nd_data = [1, 1, - 1, 2]\<rparr>, [1, 0, 1]) \<and>
   nd_rows \<lparr>nd_dtype = Int16, nd_shape = [2, 2], nd_data = [1, 1, - 1, 2]\<rparr> ! ([1, 0, 1] ! 2)
     = nd_rows \<lparr>nd_dtype = Int16, nd_shape = [3, 2], nd_data = [- 1, 2, 1, 1, - 1, 2]\<rparr> ! 2 \<and>
   distinct (nd_rows \<lparr>nd_dtype = Int16, nd_shape = [2, 2], nd_data = [1, 1, - 1, 2]\<rparr>)"
  using unique_rows_reconstruct [of "\<lparr>nd_dtype = Int16, nd_shape = [3, 2],
      nd_data = [- 1, 2, 1, 1, - 1, 2]\<rparr>" 3 2] example_unique_rows_wf
  by (simp add: example_unique_rows example_unique_rows_in example_unique_rows_out)

text \<open>
  The claim as stated covers an array with no column. For the \<open>(1, 0)\<close> array the byte
  view has no element, so the function returns no unique row and an empty inverse, while
  the input has one (empty) row: there is no \<open>inv[0]\<close> to rebuild it from.
\<close>

theorem unique_rows_zero_columns_counterexample:
  "fast_2d_int_unique \<lparr>nd_dtype = Int64, nd_shape = [1, 0], nd_data = []\<rparr>
     = Inr (\<lparr>nd_dtype = Int64, nd_shape = [0, 0], nd_data = []\<rparr>, []) \<and>
   ndarray_wf \<lparr>nd_dtype = Int64, nd_shape = [1, 0], nd_data = []\<rparr> \<and>
   nd_rows \<lparr>nd_dtype = Int64, nd_shape = [1, 0], nd_data = []\<rparr> = [[]] \<and>
   nd_rows \<lparr>nd_dtype = Int64, nd_shape = [0, 0], nd_data = []\<rparr> = []"
  by (simp add: fast_2d_int_unique_def view_void_def np_unique_inverse_def ndarray_wf_def
      nd_rows_def)

section \<open>Unique pairs through a sparse matrix\<close>

lemma nd_rows_two_columns:
  assumes "ndarray_wf arr" and "nd_shape arr = [n, 2]"
  shows "nd_rows arr = map2 (\<lambda>a b. [a, b]) (nd_column 0 arr) (nd_column 1 arr)"
proof -
  have "r = [r ! 0, r ! 1]" if "r \<in> set (nd_rows arr)" for r
  proof -
    have "length r = 2" using nd_rows_wf(2) [OF assms that] .
    then show ?thesis
      by (cases r; cases "tl r") auto
  qed
  then have "map (\<lambda>r. [r ! 0, r ! 1]) (nd_rows arr) = map (\<lambda>r. r) (nd_rows arr)"
    by (intro map_cong) simp_all
  then show ?thesis
    by (simp add: nd_column_def map2_map_same)
qed

lemma zip_concat_replicate:
  "zip (concat (map (\<lambda>r. replicate (length (f r)) r) rs)) (concat (map f rs))
     = concat (map (\<lambda>r. map (\<lambda>c. (r, c)) (f r)) rs)"
proof (induction rs)
  case Nil
  show ?case by simp
next
  case (Cons r rs)
  have "zip (replicate (length (f r)) r) (f r) = map (\<lambda>c. (r, c)) (f r)"
    by (induction "f r" arbitrary: f) (simp_all add: zip_replicate1)
  with Cons show ?case
    by simp
qed

lemma sorted_wrt_concat_groups:
  assumes "\<And>xs. xs \<in> set xss \<Longrightarrow> sorted_wrt P xs"
    and "sorted_wrt (\<lambda>xs ys. \<forall>x\<in>set xs. \<forall>y\<in>set ys. P x y) xss"
  shows "sorted_wrt P (concat xss)"
  using assms by (induction xss) (auto simp: sorted_wrt_append)

lemma indptr_difference:
  assumes "r < length per_row"
  shows "sum_list (map length (take (Suc r) per_row)) - sum_list (map length (take r per_row))
           = length (per_row ! r)"
  using assms by (simp add: take_Suc_conv_app_nth)


lemma tocoo_of_rows:
  assumes "length per_row = M"
  shows "zip (coo_row (tocoo \<lparr>csr_shape = (M, N),
                 indptr = map (\<lambda>r. sum_list (map length (take r per_row))) [0..<Suc M],
                 indices = concat per_row, csr_data = d\<rparr>))
             (coo_col (tocoo \<lparr>csr_shape = (M, N),
                 indptr = map (\<lambda>r. sum_list (map length (take r per_row))) [0..<Suc M],
                 indices = concat per_row, csr_data = d\<rparr>))
         = concat (map (\<lambda>r. map (\<lambda>c. (r, c)) (per_row ! r)) [0..<M])"
proof -
  let ?ip = "map (\<lambda>r. sum_list (map length (take r per_row))) [0..<Suc M]"
  have rw: "map (\<lambda>r. replicate (?ip ! Suc r - ?ip ! r) r) [0..<M]
          = map (\<lambda>r. replicate (length (per_row ! r)) r) [0..<M]"
    by (rule map_cong) (simp_all del: upt_Suc add: indptr_difference assms)
  have pr: "map (\<lambda>r. per_row ! r) [0..<M] = per_row"
    using map_nth [of per_row] assms by simp
  have cr: "coo_row (tocoo \<lparr>csr_shape = (M, N), indptr = ?ip, indices = concat per_row,
                 csr_data = d\<rparr>)
            = concat (map (\<lambda>r. replicate (length (per_row ! r)) r) [0..<M])"
    unfolding tocoo_def by (simp only: coo_matrix.simps csr_matrix.simps fst_conv rw)
  have cc: "coo_col (tocoo \<lparr>csr_shape = (M, N), indptr = ?ip, indices = concat per_row,
                 csr_data = d\<rparr>) = concat per_row"
    by (simp add: tocoo_def)
  show ?thesis
    unfolding cr cc using zip_concat_replicate [of "\<lambda>r. per_row ! r" "[0..<M]", unfolded pr] .
qed


lemma tocoo_lengths:
  assumes "length per_row = M"
  shows "length (coo_row (tocoo \<lparr>csr_shape = (M, N),
                 indptr = map (\<lambda>r. sum_list (map length (take r per_row))) [0..<Suc M],
                 indices = concat per_row, csr_data = d\<rparr>))
       = length (coo_col (tocoo \<lparr>csr_shape = (M, N),
                 indptr = map (\<lambda>r. sum_list (map length (take r per_row))) [0..<Suc M],
                 indices = concat per_row, csr_data = d\<rparr>))"
proof -
  let ?ip = "map (\<lambda>r. sum_list (map length (take r per_row))) [0..<Suc M]"
  have rw: "map (\<lambda>r. replicate (?ip ! Suc r - ?ip ! r) r) [0..<M]
          = map (\<lambda>r. replicate (length (per_row ! r)) r) [0..<M]"
    by (rule map_cong) (simp_all del: upt_Suc add: indptr_difference assms)
  have pr: "map (\<lambda>r. per_row ! r) [0..<M] = per_row"
    using map_nth [of per_row] assms by simp
  have cr: "coo_row (tocoo \<lparr>csr_shape = (M, N), indptr = ?ip, indices = concat per_row,
                 csr_data = d\<rparr>)
            = concat (map (\<lambda>r. replicate (length (per_row ! r)) r) [0..<M])"
    unfolding tocoo_def by (simp only: coo_matrix.simps csr_matrix.simps fst_conv rw)
  have cc: "coo_col (tocoo \<lparr>csr_shape = (M, N), indptr = ?ip, indices = concat per_row,
                 csr_data = d\<rparr>) = concat per_row"
    by (simp add: tocoo_def)
  have "length (concat (map (\<lambda>r. replicate (length (per_row ! r)) r) [0..<M]))
          = sum_list (map length (map (\<lambda>r. per_row ! r) [0..<M]))"
    by (simp add: length_concat o_def)
  then show ?thesis
    unfolding cr cc pr by (simp add: length_concat)
qed

lemma Max_nat_bound:
  assumes "xs \<noteq> []" and "list_all (\<lambda>v. 0 \<le> v) xs" and "list_all (\<lambda>v. nat v < b) xs"
  shows "Max (set (map nat xs)) < b"
proof -
  have "Max (set (map nat xs)) \<in> set (map nat xs)"
    using assms(1) by (intro Max_in) simp_all
  then obtain v where "v \<in> set xs" "Max (set (map nat xs)) = nat v"
    by auto
  then show ?thesis
    using assms(3) by (simp add: list_all_iff)
qed

lemma csr_pairs:
  assumes "row \<noteq> []" and "col \<noteq> []"
    and "list_all (\<lambda>v. 0 \<le> v) row" and "list_all (\<lambda>v. 0 \<le> v) col"
    and "list_all (\<lambda>v. v < 2 ^ 63 - 1) row" and "list_all (\<lambda>v. v < 2 ^ 63 - 1) col"
    and "list_all (\<lambda>v. v + 2 \<le> int alloc_limit) row"
  shows "\<exists>csr. make_csr_matrix alloc_limit dat row col = Inr csr \<and>
           zip (coo_row (tocoo csr)) (coo_col (tocoo csr))
             = concat (map (\<lambda>r. map (\<lambda>c. (r, c)) (row_indices (map nat row) (map nat col) r))
                         [0..<Suc (Max (set (map nat row)))]) \<and>
           length (coo_row (tocoo csr)) = length (coo_col (tocoo csr))"
proof -
  define M where "M = Suc (Max (set (map nat row)))"
  define N where "N = Suc (Max (set (map nat col)))"
  define per_row where "per_row = map (row_indices (map nat row) (map nat col)) [0..<M]"
  define csr where "csr = \<lparr>csr_shape = (M, N),
      indptr = map (\<lambda>r. sum_list (map length (take r per_row))) [0..<Suc M],
      indices = concat per_row, csr_data = replicate (length (concat per_row)) True\<rparr>"
  have nn: "\<not> list_ex (\<lambda>v. v < 0) row" "\<not> list_ex (\<lambda>v. v < 0) col"
    using assms(3,4) by (auto simp: list_ex_iff list_all_iff)
  have "list_all (\<lambda>v. nat v < 2 ^ 63 - 1) row" "list_all (\<lambda>v. nat v < 2 ^ 63 - 1) col"
    using assms(3-6) by (auto simp: list_all_iff nat_less_iff)
  then have "Max (set (map nat row)) < 2 ^ 63 - 1" "Max (set (map nat col)) < 2 ^ 63 - 1"
    using Max_nat_bound assms(1-4) by blast+
  then have fits: "\<not> 2 ^ 63 \<le> max M N"
    by (simp add: M_def N_def)
  have "nat v < alloc_limit - 1" if "v \<in> set row" for v
  proof -
    from that assms(3,7) have "0 \<le> v" "v + 2 \<le> int alloc_limit"
      by (simp_all add: list_all_iff)
    then show ?thesis by linarith
  qed
  then have "list_all (\<lambda>v. nat v < alloc_limit - 1) row"
    by (simp add: list_all_iff)
  then have "Max (set (map nat row)) < alloc_limit - 1"
    using Max_nat_bound assms(1,3) by blast
  then have mem: "\<not> alloc_limit < M + 1"
    by (simp add: M_def)
  have "coo_tocsr M N (map nat row) (map nat col) = csr"
    by (simp add: coo_tocsr_def csr_def per_row_def Let_def del: upt_Suc)
  then have mk: "make_csr_matrix alloc_limit dat row col = Inr csr"
    using assms(1,2) nn fits mem
    by (simp add: make_csr_matrix_def Let_def M_def N_def del: upt_Suc)
  have len: "length per_row = M"
    by (simp add: per_row_def)
  have nth: "map (\<lambda>r. map (\<lambda>c. (r, c)) (per_row ! r)) [0..<M]
           = map (\<lambda>r. map (\<lambda>c. (r, c)) (row_indices (map nat row) (map nat col) r)) [0..<M]"
    by (rule map_cong) (simp_all add: per_row_def del: upt_Suc)
  have "zip (coo_row (tocoo csr)) (coo_col (tocoo csr))
          = concat (map (\<lambda>r. map (\<lambda>c. (r, c)) (per_row ! r)) [0..<M])"
    unfolding csr_def by (rule tocoo_of_rows [OF len])
  moreover have "length (coo_row (tocoo csr)) = length (coo_col (tocoo csr))"
    unfolding csr_def by (rule tocoo_lengths [OF len])
  ultimately show ?thesis
    using mk nth unfolding M_def by metis
qed

lemma row_indices_set: "set (row_indices rown coln r) = {c. (r, c) \<in> set (zip rown coln)}"
  by (auto simp: row_indices_def image_iff)

lemma row_indices_sorted: "sorted_wrt (<) (row_indices rown coln r)"
  by (simp add: row_indices_def strict_sorted_iff)

lemma pairs_set:
  "set (concat (map (\<lambda>r. map (\<lambda>c. (r, c)) (row_indices rown coln r))
                  [0..<Suc (Max (set rown))])) = set (zip rown coln)"
proof -
  have "r < Suc (Max (set rown))" if "(r, c) \<in> set (zip rown coln)" for r c
  proof -
    have "r \<in> set rown" using that by (rule set_zip_leftD)
    then have "r \<le> Max (set rown)" by simp
    then show ?thesis by simp
  qed
  then show ?thesis
    by (fastforce simp: row_indices_set simp del: upt_Suc)
qed

lemma pairs_sorted:
  "sorted_wrt pair_less
     (map (\<lambda>(r, c). [int r, int c])
        (concat (map (\<lambda>r. map (\<lambda>c. (r, c)) (row_indices rown coln r)) [0..<K])))"
proof -
  let ?g = "\<lambda>r. map (\<lambda>c. [int r, int c]) (row_indices rown coln r)"
  have e: "map (\<lambda>(r, c). [int r, int c])
             (concat (map (\<lambda>r. map (\<lambda>c. (r, c)) (row_indices rown coln r)) [0..<K]))
           = concat (map ?g [0..<K])"
    by (simp add: map_concat o_def)
  have grp: "sorted_wrt pair_less (?g r)" for r
  proof -
    have "sorted_wrt (\<lambda>c c'. pair_less [int r, int c] [int r, int c']) (row_indices rown coln r)"
      by (rule sorted_wrt_mono_rel [OF _ row_indices_sorted]) (simp add: pair_less_def)
    then show ?thesis by (simp add: sorted_wrt_map)
  qed
  have "sorted_wrt (<) [0..<K]"
    by (simp add: strict_sorted_iff)
  then have "sorted_wrt (\<lambda>r r'. \<forall>x\<in>set (?g r). \<forall>y\<in>set (?g r'). pair_less x y) [0..<K]"
    by (rule sorted_wrt_mono_rel [rotated]) (auto simp: pair_less_def)
  then have "sorted_wrt (\<lambda>xs ys. \<forall>x\<in>set xs. \<forall>y\<in>set ys. pair_less x y) (map ?g [0..<K])"
    by (simp add: sorted_wrt_map)
  then have "sorted_wrt pair_less (concat (map ?g [0..<K]))"
    by (intro sorted_wrt_concat_groups) (auto simp: grp)
  then show ?thesis
    unfolding e .
qed

lemma pair_less_distinct: "sorted_wrt pair_less xs \<Longrightarrow> distinct xs"
  by (induction xs) (auto simp: pair_less_def)

lemma nd_column_subset:
  assumes "ndarray_wf arr" and "nd_shape arr = [n, m]" and "j < m"
  shows "set (nd_column j arr) \<subseteq> set (nd_data arr)"
proof
  fix v
  assume "v \<in> set (nd_column j arr)"
  then obtain r where r: "r \<in> set (nd_rows arr)" and v: "v = r ! j"
    by (auto simp: nd_column_def)
  have "length r = m" using nd_rows_wf(2) [OF assms(1,2) r] .
  then have "v \<in> set r" using v assms(3) by simp
  moreover from r obtain i where "r = take m (drop (i * m) (nd_data arr))"
    using assms(2) by (auto simp: nd_rows_def)
  then have "set r \<subseteq> set (nd_data arr)"
    by (metis set_take_subset set_drop_subset subset_trans)
  ultimately show "v \<in> set (nd_data arr)" by blast
qed


text \<open>
  Claim C7, as amended. For a well-formed integer array with exactly 2 columns whose
  entries are not negative and small enough for the sparse matrix to be built (every
  entry at most \<open>2^63 - 2\<close>, so that the inferred shape fits a 64-bit integer, and the
  row-pointer array of \<open>max col0 + 2\<close> entries within what the machine allocates),
  \<open>fast_2d_2col_int_unique\<close> returns an array whose rows are exactly the pairs
  \<open>(col0, col1)\<close> of the input, each once, in ascending order by column 0 and then
  column 1.
\<close>

theorem unique_pairs_sorted:
  assumes "is_integer_dtype (nd_dtype arr)" and "nd_shape arr = [n, 2]" and "ndarray_wf arr"
    and "list_all (\<lambda>v. 0 \<le> v) (nd_data arr)"
    and "list_all (\<lambda>v. v < 2 ^ 63 - 1) (nd_data arr)"
    and "list_all (\<lambda>v. v + 2 \<le> int alloc_limit) (nd_column 0 arr)"
  shows "\<exists>res. fast_2d_2col_int_unique alloc_limit arr = Inr res \<and>
           nd_shape res = [length (nd_rows res), 2] \<and>
           set (nd_rows res) = set (nd_rows arr) \<and>
           sorted_wrt pair_less (nd_rows res) \<and>
           distinct (nd_rows res)"
proof (cases "n = 0")
  case True
  have "fast_2d_2col_int_unique alloc_limit arr = Inr arr"
    using assms(1,2) True by (simp add: fast_2d_2col_int_unique_def)
  moreover have "nd_rows arr = []"
    using assms(2) True by (simp add: nd_rows_def)
  ultimately show ?thesis
    using assms(2) True by simp
next
  case False
  define row where "row = nd_column 0 arr"
  define col where "col = nd_column 1 arr"
  have ne: "row \<noteq> []" "col \<noteq> []"
    using assms(2) False by (simp_all add: row_def col_def nd_column_def nd_rows_def)
  have nonneg: "list_all (\<lambda>v. 0 \<le> v) row" "list_all (\<lambda>v. 0 \<le> v) col"
    using nd_column_subset [OF assms(3,2), of 0] nd_column_subset [OF assms(3,2), of 1] assms(4)
    by (auto simp: row_def col_def list_all_iff)
  have small: "list_all (\<lambda>v. v < 2 ^ 63 - 1) row" "list_all (\<lambda>v. v < 2 ^ 63 - 1) col"
    using nd_column_subset [OF assms(3,2), of 0] nd_column_subset [OF assms(3,2), of 1] assms(5)
    by (auto simp: row_def col_def list_all_iff)
  have alloc: "list_all (\<lambda>v. v + 2 \<le> int alloc_limit) row"
    using assms(6) by (simp add: row_def)
  from csr_pairs [OF ne nonneg small alloc, of "replicate n True"]
  obtain csr where mk: "make_csr_matrix alloc_limit (replicate n True) row col = Inr csr"
    and zp: "zip (coo_row (tocoo csr)) (coo_col (tocoo csr))
             = concat (map (\<lambda>r. map (\<lambda>c. (r, c)) (row_indices (map nat row) (map nat col) r))
                         [0..<Suc (Max (set (map nat row)))])"
    and ln: "length (coo_row (tocoo csr)) = length (coo_col (tocoo csr))"
    by blast
  define L where "L = map2 (\<lambda>r c. [int r, int c]) (coo_row (tocoo csr)) (coo_col (tocoo csr))"
  define res where "res = \<lparr>nd_dtype = index_dtype (coo_shape (tocoo csr)),
      nd_shape = [length (coo_row (tocoo csr)), 2], nd_data = concat L\<rparr>"
  have r: "fast_2d_2col_int_unique alloc_limit arr = Inr res"
    using assms(1,2) False mk
    by (simp add: fast_2d_2col_int_unique_def bind_err_def Let_def res_def L_def row_def col_def)
  have lenL: "length L = length (coo_row (tocoo csr))"
    using ln by (simp add: L_def)
  have "nd_rows \<lparr>nd_dtype = index_dtype (coo_shape (tocoo csr)), nd_shape = [length L, 2],
                  nd_data = concat L\<rparr> = L"
    by (rule nd_rows_concat) (auto simp: L_def)
  then have rows: "nd_rows res = L"
    by (simp add: res_def lenL)
  have "set (zip (coo_row (tocoo csr)) (coo_col (tocoo csr)))
          = set (zip (map nat row) (map nat col))"
    unfolding zp by (rule pairs_set)
  then have Lset: "set L = (\<lambda>(r, c). [int r, int c]) ` set (zip (map nat row) (map nat col))"
    unfolding L_def by (simp only: set_map)
  have z: "zip (map nat row) (map nat col) = map (\<lambda>(a, b). (nat a, nat b)) (zip row col)"
    by (simp add: zip_map_map)
  have restore: "(case (nat a, nat b) of (r, c) \<Rightarrow> [int r, int c]) = [a, b]"
    if "(a, b) \<in> set (zip row col)" for a b
  proof -
    have "a \<in> set row" "b \<in> set col"
      using that by (auto dest: set_zip_leftD set_zip_rightD)
    then show ?thesis
      using nonneg by (simp add: list_all_iff)
  qed
  have "set L = (\<lambda>(a, b). [a, b]) ` set (zip row col)"
    unfolding Lset z using restore by (force simp: image_iff)
  moreover have "nd_rows arr = map2 (\<lambda>a b. [a, b]) row col"
    unfolding row_def col_def by (rule nd_rows_two_columns [OF assms(3,2)])
  ultimately have sets: "set (nd_rows res) = set (nd_rows arr)"
    by (simp add: rows)
  have "sorted_wrt pair_less L"
    unfolding L_def zp by (rule pairs_sorted)
  then have srt: "sorted_wrt pair_less (nd_rows res)"
    by (simp add: rows)
  then have "distinct (nd_rows res)"
    by (rule pair_less_distinct)
  moreover have "nd_shape res = [length (nd_rows res), 2]"
    unfolding rows lenL by (simp add: res_def)
  ultimately show ?thesis
    using r sets srt by blast
qed



lemma example_columns:
  "nd_column 0 \<lparr>nd_dtype = Int64, nd_shape = [4, 2], nd_data = [2, 1, 1, 1, 1, 1, 2, 0]\<rparr>
     = [2, 1, 1, 2]"
  "nd_column 1 \<lparr>nd_dtype = Int64, nd_shape = [4, 2], nd_data = [2, 1, 1, 1, 1, 1, 2, 0]\<rparr>
     = [1, 1, 1, 0]"
  "nd_column (Suc 0) \<lparr>nd_dtype = Int64, nd_shape = [4, 2], nd_data = [2, 1, 1, 1, 1, 1, 2, 0]\<rparr>
     = [1, 1, 1, 0]"
  by code_simp+

lemma make_csr_matrix_fits:
  assumes "row \<noteq> []" and "col \<noteq> []"
    and "\<not> list_ex (\<lambda>v. v < 0) row" and "\<not> list_ex (\<lambda>v. v < 0) col"
    and "Max (set (map nat row)) + 1 = M" and "Max (set (map nat col)) + 1 = N"
    and "max M N < 2 ^ 63" and "M + 1 \<le> alloc_limit"
  shows "make_csr_matrix alloc_limit dat row col = Inr (coo_tocsr M N (map nat row) (map nat col))"
proof -
  have "\<not> 2 ^ 63 \<le> max (Max (set (map nat row)) + 1) (Max (set (map nat col)) + 1)"
    using assms(5-7) by (simp add: not_le)
  moreover have "\<not> alloc_limit < Max (set (map nat row)) + 1 + 1"
    using assms(5,8) by (simp add: not_less)
  ultimately show ?thesis
    using assms(1-6) unfolding make_csr_matrix_def Let_def
    by (simp only: if_False simp_thms)
qed

lemma example_tocsr:
  "coo_tocsr 3 2 (map nat [2, 1, 1, 2]) (map nat [1, 1, 1, 0])
     = \<lparr>csr_shape = (3, 2), indptr = [0, 0, 1, 3], indices = [1, 0, 1],
        csr_data = [True, True, True]\<rparr>"
  by code_simp

lemma example_csr:
  "make_csr_matrix 1000 (replicate 4 True) [2, 1, 1, 2] [1, 1, 1, 0]
     = Inr \<lparr>csr_shape = (3, 2), indptr = [0, 0, 1, 3], indices = [1, 0, 1],
            csr_data = [True, True, True]\<rparr>"
proof -
  have "make_csr_matrix 1000 (replicate 4 True) [2, 1, 1, 2] [1, 1, 1, 0]
          = Inr (coo_tocsr 3 2 (map nat [2, 1, 1, 2]) (map nat [1, 1, 1, 0]))"
    by (rule make_csr_matrix_fits) simp_all
  then show ?thesis
    unfolding example_tocsr .
qed

lemma example_coo:
  "tocoo \<lparr>csr_shape = (3, 2), indptr = [0, 0, 1, 3], indices = [1, 0, 1],
            csr_data = [True, True, True]\<rparr>
     = \<lparr>coo_shape = (3, 2), coo_row = [1, 2, 2], coo_col = [1, 0, 1],
        coo_data = [True, True, True]\<rparr>"
  by code_simp

lemma example_index_dtype: "index_dtype (3, 2) = Int32"
  by (simp add: index_dtype_def)

lemma example_unique_pairs:
  "fast_2d_2col_int_unique 1000
     \<lparr>nd_dtype = Int64, nd_shape = [4, 2], nd_data = [2, 1, 1, 1, 1, 1, 2, 0]\<rparr>
   = Inr \<lparr>nd_dtype = Int32, nd_shape = [3, 2], nd_data = [1, 1, 2, 0, 2, 1]\<rparr>"
proof -
  have "fast_2d_2col_int_unique 1000
          \<lparr>nd_dtype = Int64, nd_shape = [4, 2], nd_data = [2, 1, 1, 1, 1, 1, 2, 0]\<rparr>
        = bind_err (make_csr_matrix 1000 (replicate 4 True)
            (nd_column 0 \<lparr>nd_dtype = Int64, nd_shape = [4, 2], nd_data = [2, 1, 1, 1, 1, 1, 2, 0]\<rparr>)
            (nd_column 1 \<lparr>nd_dtype = Int64, nd_shape = [4, 2], nd_data = [2, 1, 1, 1, 1, 1, 2, 0]\<rparr>))
            (\<lambda>csr. let coo = tocoo csr
                   in Inr \<lparr>nd_dtype = index_dtype (coo_shape coo),
                            nd_shape = [length (coo_row coo), 2],
                            nd_data = concat (map2 (\<lambda>r c. [int r, int c]) (coo_row coo) (coo_col coo))\<rparr>)"
    by (simp add: fast_2d_2col_int_unique_def)
  then show ?thesis
    unfolding example_columns example_csr bind_err_def sum.case Let_def example_coo
    by (simp add: example_index_dtype)
qed

lemma example_unique_pairs_wf:
  "ndarray_wf \<lparr>nd_dtype = Int64, nd_shape = [4, 2], nd_data = [2, 1, 1, 1, 1, 1, 2, 0]\<rparr>"
  by (simp add: ndarray_wf_def in_range_def)

lemma example_unique_pairs_rows:
  "nd_rows \<lparr>nd_dtype = Int32, nd_shape = [3, 2], nd_data = [1, 1, 2, 0, 2, 1]\<rparr>
     = [[1, 1], [2, 0], [2, 1]]"
  "nd_rows \<lparr>nd_dtype = Int64, nd_shape = [4, 2], nd_data = [2, 1, 1, 1, 1, 1, 2, 0]\<rparr>
     = [[2, 1], [1, 1], [1, 1], [2, 0]]"
  by code_simp+

theorem unique_pairs_sorted_witness:
  "ndarray_wf \<lparr>nd_dtype = Int64, nd_shape = [4, 2], nd_data = [2, 1, 1, 1, 1, 1, 2, 0]\<rparr> \<and>
   fast_2d_2col_int_unique 1000
     \<lparr>nd_dtype = Int64, nd_shape = [4, 2], nd_data = [2, 1, 1, 1, 1, 1, 2, 0]\<rparr>
   = Inr \<lparr>nd_dtype = Int32, nd_shape = [3, 2], nd_data = [1, 1, 2, 0, 2, 1]\<rparr> \<and>
   set [[1, 1], [2, 0], [2, 1]] = set [[2, 1], [1, 1], [1, 1], [2, 0 :: int]] \<and>
   sorted_wrt pair_less [[1, 1], [2, 0], [2, 1]]"
  using unique_pairs_sorted [of "\<lparr>nd_dtype = Int64, nd_shape = [4, 2],
      nd_data = [2, 1, 1, 1, 1, 1, 2, 0]\<rparr>" 4 1000] example_unique_pairs_wf
  by (simp add: example_unique_pairs example_unique_pairs_rows example_columns)

text \<open>
  The claim as stated covers every integer array with 2 columns. The function does not
  return a result on \<open>[[-1, 0]]\<close>, where the sparse matrix refuses the negative index,
  on \<open>[[0, 2^63 - 1]]\<close>, where the inferred number of columns \<open>2^63\<close> does not fit a
  64-bit integer, and on \<open>[[2^62, 0]]\<close>, whose row-pointer array of \<open>2^62 + 2\<close> entries
  no machine allocates (here one that allocates up to \<open>2^40\<close> entries).
\<close>

theorem unique_pairs_negative_counterexample:
  "fast_2d_2col_int_unique 1099511627776
     \<lparr>nd_dtype = Int64, nd_shape = [1, 2], nd_data = [- 1, 0]\<rparr>
     = Inl SparseNegativeIndex \<and>
   fast_2d_2col_int_unique 1099511627776
     \<lparr>nd_dtype = Int64, nd_shape = [1, 2], nd_data = [0, 9223372036854775807]\<rparr>
     = Inl SparseOverflow \<and>
   fast_2d_2col_int_unique 1099511627776
     \<lparr>nd_dtype = Int64, nd_shape = [1, 2], nd_data = [4611686018427387904, 0]\<rparr>
     = Inl SparseAllocation"
  by (simp add: fast_2d_2col_int_unique_def bind_err_def make_csr_matrix_def nd_column_def
      nd_rows_def)

end
